theory Spec2Isabelle
  imports Main "HOL-Library.Multiset" "HOL-Library.Multiset_Order"
begin

section \<open>Shared data: diagnostics and symbol kinds\<close>

text \<open>
  \<^verbatim>\<open>DiagnosticSeverity\<close> of vscode-languageserver and the diagnostic entry that
  \<^verbatim>\<open>SourceContext.diagnostics\<close> holds. A source range is the pair of the start and stop
  token of a parse-tree context, as \<^verbatim>\<open>rangeFromTokens(ctx.start, ctx.stop)\<close> receives it.
\<close>

datatype DiagnosticSeverity = Error | Warning | Information | Hint

type_synonym lex_range = "nat \<times> nat"

record IDiagnosticEntry =
  message :: string
  range :: lex_range
  type :: DiagnosticSeverity

datatype SymbolKind =
  Unknown | Terminal | Keyword | Include | Inherit | Method | MethodDeclaration
  | InlineClosure | Variable | Literal | Operator | Efun | Define | Block

section \<open>Completion candidates\<close>

text \<open>
  The part of \<^verbatim>\<open>ISymbolInfo\<close> that \<^verbatim>\<open>getCodeCompletionCandidates\<close> fills in, and the part of a
  \<^verbatim>\<open>BaseSymbol\<close> it reads: the name, the kind (present when the symbol implements
  \<^verbatim>\<open>IKindSymbol\<close>), whether it is an \<^verbatim>\<open>EfunSymbol\<close>, and the file name of the owner of its
  symbol table (\<^verbatim>\<open>symbol.symbolTable?.owner?.fileName\<close>).
\<close>

record ISymbolInfo =
  kind :: SymbolKind
  name :: string
  description :: "string option"
  source :: "string option"

record BaseSymbol =
  sym_name :: string
  sym_kind :: "SymbolKind option"
  isEfunSymbol :: bool
  owner_fileName :: "string option"

datatype token_type =
  Identifier | ARROW | ARRAY_OPEN | ASSIGN | ADD_ASSIGN | OtherToken nat

datatype rule_index =
  RULE_block | RULE_statement | RULE_primaryExpressionStart | RULE_primaryExpression
  | RULE_literal | RULE_assignmentExpression | RULE_functionDeclaration
  | RULE_variableDeclaration | OtherRule nat

datatype ArrowType = CallOther | StructMember

text \<open>
  What \<^verbatim>\<open>symbolContainingContext(context)\<close> yields at the caret, after the step
  \<^verbatim>\<open>if (s.parent instanceof ArrowSymbol) s = s.parent\<close>: an arrow symbol with its
  \<^verbatim>\<open>ArrowType\<close> and, when \<^verbatim>\<open>objectRef\<close> is set, the result of
  \<^verbatim>\<open>objectRef.context.symbolTable.getAllSymbols(MethodSymbol, false)\<close>; or another symbol.
\<close>

datatype caret_symbol =
  AtArrow ArrowType "BaseSymbol list option"
  | NotArrow

text \<open>
  The results of the symbol-table queries of the general expression position, in the
  order the promises are pushed. A promise may resolve to \<^verbatim>\<open>undefined\<close>.
\<close>

record lookups =
  efuns :: "BaseSymbol list option"
  variables :: "BaseSymbol list option"
  methods :: "BaseSymbol list option"
  methodDeclarations :: "BaseSymbol list option"

definition getKindFromSymbol :: "BaseSymbol \<Rightarrow> SymbolKind" where
  "getKindFromSymbol symbol = (case sym_kind symbol of Some k \<Rightarrow> k | None \<Rightarrow> Unknown)"

text \<open>\<^verbatim>\<open>candidates.tokens.forEach\<close>: one fixed operator suggestion per known token type.\<close>

fun tokenCandidate :: "string \<Rightarrow> token_type \<Rightarrow> ISymbolInfo list" where
  "tokenCandidate fileName Identifier = []"
| "tokenCandidate fileName ARROW =
     [\<lparr>kind = Operator, name = ''->'', description = Some ''Call other'',
       source = Some fileName\<rparr>]"
| "tokenCandidate fileName ARRAY_OPEN =
     [\<lparr>kind = Operator, name = ''({ val })'', description = Some ''Array initializer'',
       source = Some fileName\<rparr>]"
| "tokenCandidate fileName ASSIGN =
     [\<lparr>kind = Operator, name = ''='', description = Some ''Variable assignment'',
       source = Some fileName\<rparr>]"
| "tokenCandidate fileName ADD_ASSIGN =
     [\<lparr>kind = Operator, name = ''+='', description = Some ''Variable increment'',
       source = Some fileName\<rparr>]"
| "tokenCandidate fileName (OtherToken n) = []"

definition tokenCandidates :: "string \<Rightarrow> token_type list \<Rightarrow> ISymbolInfo list" where
  "tokenCandidates fileName tokens = concat (map (tokenCandidate fileName) tokens)"

text \<open>
  \<^verbatim>\<open>candidates.rules.forEach\<close>: each rule key appends to \<^verbatim>\<open>result\<close> and to \<^verbatim>\<open>promises\<close>.
  The state is the pair (result, promises).
\<close>

definition filterEfuns :: "BaseSymbol list \<Rightarrow> BaseSymbol list" where
  "filterEfuns symbols = filter (\<lambda>s. \<not> isEfunSymbol s) symbols"

definition expressionRule ::
  "string \<Rightarrow> caret_symbol \<Rightarrow> lookups \<Rightarrow>
   ISymbolInfo list \<times> BaseSymbol list option list \<Rightarrow>
   ISymbolInfo list \<times> BaseSymbol list option list" where
  "expressionRule fileName s lk st =
     (case st of (result, promises) \<Rightarrow>
       (case s of
          AtArrow t objMethods \<Rightarrow>
            (if t = CallOther \<and> objMethods \<noteq> None
             then (result, promises @ [map_option filterEfuns objMethods])
             else (result, promises))
        | NotArrow \<Rightarrow>
            (result @ [\<lparr>kind = Operator, name = ''->'', description = Some ''Call other'',
                        source = Some fileName\<rparr>],
             promises @ [efuns lk, variables lk, methods lk, methodDeclarations lk])))"

fun ruleCandidate ::
  "string \<Rightarrow> caret_symbol \<Rightarrow> lookups \<Rightarrow> rule_index \<Rightarrow>
   ISymbolInfo list \<times> BaseSymbol list option list \<Rightarrow>
   ISymbolInfo list \<times> BaseSymbol list option list" where
  "ruleCandidate fileName s lk RULE_block (result, promises) =
     (result @ [\<lparr>kind = Block, name = ''{ code }'', description = None,
                 source = Some fileName\<rparr>], promises)"
| "ruleCandidate fileName s lk RULE_statement st = expressionRule fileName s lk st"
| "ruleCandidate fileName s lk RULE_primaryExpressionStart st = expressionRule fileName s lk st"
| "ruleCandidate fileName s lk RULE_primaryExpression st = expressionRule fileName s lk st"
| "ruleCandidate fileName s lk RULE_literal st = expressionRule fileName s lk st"
| "ruleCandidate fileName s lk RULE_assignmentExpression (result, promises) =
     (result, promises @ [variables lk])"
| "ruleCandidate fileName s lk RULE_functionDeclaration st = st"
| "ruleCandidate fileName s lk RULE_variableDeclaration st = st"
| "ruleCandidate fileName s lk (OtherRule n) st = st"

definition ruleCandidates ::
  "string \<Rightarrow> caret_symbol \<Rightarrow> lookups \<Rightarrow> rule_index list \<Rightarrow> ISymbolInfo list \<Rightarrow>
   ISymbolInfo list \<times> BaseSymbol list option list" where
  "ruleCandidates fileName s lk rules result =
     fold (ruleCandidate fileName s lk) rules (result, [])"

text \<open>
  The merge after \<^verbatim>\<open>Promise.all\<close>: \<^verbatim>\<open>names\<close> is the set of names already pushed. The state
  is the pair (names, result).
\<close>

definition mergeSymbol ::
  "BaseSymbol \<Rightarrow> string list \<times> ISymbolInfo list \<Rightarrow> string list \<times> ISymbolInfo list" where
  "mergeSymbol symbol st =
     (case st of (names, result) \<Rightarrow>
       (if sym_name symbol \<noteq> ''EOF''
        then (if sym_name symbol \<notin> set names
              then (sym_name symbol # names,
                    result @ [\<lparr>kind = getKindFromSymbol symbol, name = sym_name symbol,
                                description = None, source = owner_fileName symbol\<rparr>])
              else (names, result))
        else (names, result)))"

definition mergeList ::
  "BaseSymbol list option \<Rightarrow> string list \<times> ISymbolInfo list \<Rightarrow>
   string list \<times> ISymbolInfo list" where
  "mergeList symbols st = (case symbols of None \<Rightarrow> st | Some ss \<Rightarrow> fold mergeSymbol ss st)"

definition mergeSymbolLists ::
  "BaseSymbol list option list \<Rightarrow> ISymbolInfo list \<Rightarrow> ISymbolInfo list" where
  "mergeSymbolLists symbolLists result = snd (fold mergeList symbolLists ([], result))"

text \<open>
  \<^verbatim>\<open>getCodeCompletionCandidates\<close>, from the result of \<^verbatim>\<open>core.collectCandidates(index)\<close> on:
  the expected token types and the expected rules, each in the iteration order of its map.
  The search for the token index at the caret only feeds that call, whose result is given
  here; the parser is set by the constructor, so the early return for a missing parser
  is never taken.
\<close>

definition fixedCandidates ::
  "string \<Rightarrow> caret_symbol \<Rightarrow> lookups \<Rightarrow> token_type list \<Rightarrow> rule_index list \<Rightarrow>
   ISymbolInfo list" where
  "fixedCandidates fileName s lk tokens rules =
     fst (ruleCandidates fileName s lk rules (tokenCandidates fileName tokens))"

definition getCodeCompletionCandidates ::
  "string \<Rightarrow> caret_symbol \<Rightarrow> lookups \<Rightarrow> token_type list \<Rightarrow> rule_index list \<Rightarrow>
   ISymbolInfo list" where
  "getCodeCompletionCandidates fileName s lk tokens rules =
     (case ruleCandidates fileName s lk rules (tokenCandidates fileName tokens) of
        (result, promises) \<Rightarrow> mergeSymbolLists promises result)"


section \<open>Source units, their symbol tables and the collaborators\<close>

text \<open>
  \<^verbatim>\<open>SourceContext\<close> objects live in a heap, a list indexed by object identity; a field that
  holds a \<^verbatim>\<open>SourceContext\<close> holds its index. Every unit a field refers to is in the
  heap; the statements below say so where they read a unit. A symbol table is referred to by a
  \<open>table_ref\<close>: the static \<^verbatim>\<open>SourceContext.globalSymbols\<close>, the static \<^verbatim>\<open>EfunSymbols\<close>, or the
  table owned by a source unit.
\<close>

type_synonym cid = nat

datatype table_ref = GlobalSymbols | EfunSymbols | TableOf cid

datatype ParseTree = Node nat "ParseTree list"

record IContextDetails =
  info_imports :: "string list"
  info_objectImports :: "string list"

record ContextSymbolTable =
  symbols :: "BaseSymbol list"
  dependencies :: "table_ref list"
  table_tree :: "ParseTree option"

record SourceContext =
  fileName :: string
  importDir :: "string list"
  inputStream :: string
  info :: IContextDetails
  diagnostics :: "IDiagnosticEntry list"
  references :: "cid list"
  semanticAnalysisDone :: bool
  tree :: "ParseTree option"
  symbolTable :: ContextSymbolTable

type_synonym heap = "SourceContext list"

datatype PredictionMode = SLL | LL

datatype exn = ParseCancellationException | OtherException string

text \<open>
  One run of \<^verbatim>\<open>this.parser.program()\<close>: it returns the tree or throws, and in both cases
  the error listeners have pushed the syntax diagnostics of the run onto
  \<^verbatim>\<open>this.diagnostics\<close>.
\<close>

datatype parse_outcome =
  Program ParseTree "IDiagnosticEntry list"
  | Thrown exn "IDiagnosticEntry list"

datatype js_value =
  Undefined | StringValue string | ObjectReferenceInfo cid | OtherValue nat

text \<open>
  A \<^verbatim>\<open>StackFrame\<close> binds a symbol (a unit's table or a function symbol), the parameter and
  local maps, and an optional parent frame. The \<^verbatim>\<open>CallStack\<close> is the list of pushed frames,
  the last pushed first.
\<close>

datatype frame_symbol = TableFrame cid | FunctionFrame BaseSymbol

datatype StackFrame =
  StackFrame frame_symbol "(string \<times> js_value) list" "(string \<times> js_value) list"
    "StackFrame option"

type_synonym CallStack = "StackFrame list"

text \<open>
  The code this development takes as given, because it lies outside the two source files:
  the generated parser, the two tree walkers, the symbol table's own counting and function
  lookup, the facade (\<^verbatim>\<open>backend\<close>) and the evaluation of a function symbol.
  \<^verbatim>\<open>semanticWalk\<close> receives the unit and all it can reach, so it is any transformation of the
  heap; \<^verbatim>\<open>DetailsVisitor\<close> receives the table and the two import lists and yields their
  contents.
\<close>

record collaborators =
  program :: "PredictionMode \<Rightarrow> string \<Rightarrow> parse_outcome"
  detailsVisitor :: "ParseTree \<Rightarrow> BaseSymbol list \<times> string list \<times> string list"
  semanticWalk :: "cid \<Rightarrow> ParseTree \<Rightarrow> heap \<Rightarrow> heap"
  tableReferenceCount :: "ContextSymbolTable \<Rightarrow> string \<Rightarrow> nat"
  getFunction :: "ContextSymbolTable \<Rightarrow> string option \<Rightarrow> BaseSymbol option"
  loadLpc :: "string \<Rightarrow> heap \<Rightarrow> cid option \<times> heap"
  filenameToAbsolutePath :: "string \<Rightarrow> string"
  normalizeFilename :: "string \<Rightarrow> string"
  evalFunction ::
    "BaseSymbol \<Rightarrow> CallStack \<Rightarrow> js_value list option \<Rightarrow> heap \<Rightarrow> js_value \<times> heap"

text \<open>
  What the modelled methods do, in order: a log kept beside the heap, which no
  collaborator can write. It lets a statement speak of an action that was or was not
  attempted.
\<close>

datatype event =
  ParseRun cid PredictionMode
  | SemanticWalk cid
  | DiagnosticAdded cid IDiagnosticEntry
  | ObjectLoad string
  | FunctionLookup cid "string option"
  | FramePush
  | FramePop

record world =
  heap :: heap
  events :: "event list"

definition logEvent :: "event \<Rightarrow> world \<Rightarrow> world" where
  "logEvent e w = w\<lparr>events := events w @ [e]\<rparr>"

subsection \<open>The symbol table's dependency list\<close>

text \<open>
  Modelled from the spec: \<^verbatim>\<open>ContextSymbolTable\<close> and the library table it extends are not
  among the source files. \<^verbatim>\<open>addDependencies\<close> is idempotent (adding a dependency that is
  present is a no-op) and keeps addition order; \<^verbatim>\<open>clear\<close> empties the table.
\<close>

definition addDependencies :: "ContextSymbolTable \<Rightarrow> table_ref \<Rightarrow> ContextSymbolTable" where
  "addDependencies t d =
     (if d \<in> set (dependencies t) then t else t\<lparr>dependencies := dependencies t @ [d]\<rparr>)"


subsection \<open>The reference mesh\<close>

text \<open>
  The loop of \<^verbatim>\<open>addAsReferenceTo\<close> over \<^verbatim>\<open>pipeline\<close>: it takes the first element, answers
  \<open>True\<close> ("already in the list") when \<^verbatim>\<open>this\<close> is among its references, and otherwise
  appends its references to the pipeline. The loop keeps no set of visited units, so it
  need not end; the first argument bounds the number of iterations and \<open>None\<close> is the
  answer of a run that needs more.
\<close>

fun pipelineLoop :: "nat \<Rightarrow> heap \<Rightarrow> cid \<Rightarrow> cid list \<Rightarrow> bool option" where
  "pipelineLoop 0 h this pipeline = None"
| "pipelineLoop (Suc n) h this [] = Some False"
| "pipelineLoop (Suc n) h this (current # rest) =
     (if this \<in> set (references (h ! current)) then Some True
      else pipelineLoop n h this (rest @ references (h ! current)))"

definition getReferences :: "heap \<Rightarrow> cid \<Rightarrow> cid list" where
  "getReferences h this = references (h ! this)"

definition addAsReferenceTo :: "nat \<Rightarrow> heap \<Rightarrow> cid \<Rightarrow> cid \<Rightarrow> bool \<Rightarrow> heap option" where
  "addAsReferenceTo n h this ctx addSymbolTable =
     (case pipelineLoop n h this [ctx] of
        None \<Rightarrow> None
      | Some True \<Rightarrow> Some h
      | Some False \<Rightarrow>
          (let h1 = h[ctx := (h ! ctx)\<lparr>references := references (h ! ctx) @ [this]\<rparr>]
           in if addSymbolTable
              then Some (h1[this := (h1 ! this)\<lparr>symbolTable :=
                           addDependencies (symbolTable (h1 ! this)) (TableOf ctx)\<rparr>])
              else Some h1))"

subsection \<open>Semantic analysis on demand\<close>

definition runSemanticAnalysisIfNeeded :: "collaborators \<Rightarrow> world \<Rightarrow> cid \<Rightarrow> world" where
  "runSemanticAnalysisIfNeeded env w this =
     (case tree (heap w ! this) of
        None \<Rightarrow> w
      | Some t \<Rightarrow>
          if \<not> semanticAnalysisDone (heap w ! this)
          then \<lparr>heap = semanticWalk env this t
                         ((heap w)[this := (heap w ! this)\<lparr>semanticAnalysisDone := True\<rparr>]),
                events = events w @ [SemanticWalk this]\<rparr>
          else w)"


text \<open>
  \<^verbatim>\<open>getReferenceCount\<close> calls itself on every unit of \<^verbatim>\<open>this.references\<close>; the \<^verbatim>\<open>for\<close>-\<^verbatim>\<open>of\<close> loop
  reads the array as it is at each step. On a mesh with a cycle the recursion does not
  end: the first argument bounds the depth of calls and loop steps together.
\<close>

fun getReferenceCount :: "nat \<Rightarrow> collaborators \<Rightarrow> world \<Rightarrow> cid \<Rightarrow> string \<Rightarrow> (nat \<times> world) option"
  and referencesLoop ::
    "nat \<Rightarrow> collaborators \<Rightarrow> world \<Rightarrow> cid \<Rightarrow> string \<Rightarrow> nat \<Rightarrow> nat \<Rightarrow> (nat \<times> world) option" where
  "getReferenceCount 0 env w this symbol = None"
| "getReferenceCount (Suc n) env w this symbol =
     (let w1 = runSemanticAnalysisIfNeeded env w this
      in referencesLoop n env w1 this symbol 0
           (tableReferenceCount env (symbolTable (heap w1 ! this)) symbol))"
| "referencesLoop 0 env w this symbol i result = None"
| "referencesLoop (Suc n) env w this symbol i result =
     (if i < length (references (heap w ! this))
      then (case getReferenceCount n env w (references (heap w ! this) ! i) symbol of
              None \<Rightarrow> None
            | Some (r, w') \<Rightarrow> referencesLoop n env w' this symbol (Suc i) (result + r))
      else Some (result, w))"

subsection \<open>Parsing\<close>





section \<open>Resolution through the dependencies\<close>

text \<open>
  The two static tables, \<^verbatim>\<open>SourceContext.globalSymbols\<close> and \<^verbatim>\<open>EfunSymbols\<close>, and the table a
  reference stands for. A reference to a unit outside the heap stands for no table.
\<close>

record statics =
  globalSymbols :: ContextSymbolTable
  efunSymbols :: ContextSymbolTable

definition tableOf :: "statics \<Rightarrow> heap \<Rightarrow> table_ref \<Rightarrow> ContextSymbolTable option" where
  "tableOf st h r =
     (case r of
        GlobalSymbols \<Rightarrow> Some (globalSymbols st)
      | EfunSymbols \<Rightarrow> Some (efunSymbols st)
      | TableOf c \<Rightarrow> if c < length h then Some (symbolTable (h ! c)) else None)"

text \<open>Every table there is: the bound on the tables a resolution can visit.\<close>

definition allTables :: "heap \<Rightarrow> table_ref list" where
  "allTables h = GlobalSymbols # EfunSymbols # map TableOf [0..<length h]"

text \<open>
  Modelled from the spec: the table's \<^verbatim>\<open>resolve(name, localOnly)\<close> is not among the source
  files. It searches the table's own symbols first, then each dependency table in
  addition order, skipping the tables already visited in this resolution, and returns the
  first match. \<open>pending\<close> holds the tables still to search, in order; a table's
  dependencies are searched before the tables that follow it.
\<close>

function resolveLoop ::
  "statics \<Rightarrow> heap \<Rightarrow> table_ref list \<Rightarrow> table_ref list \<Rightarrow> string \<Rightarrow> BaseSymbol option" where
  "resolveLoop st h visited [] symbolName = None"
| "resolveLoop st h visited (t # pending) symbolName =
     (if t \<in> set visited then resolveLoop st h visited pending symbolName
      else (case tableOf st h t of
              None \<Rightarrow> resolveLoop st h visited pending symbolName
            | Some tbl \<Rightarrow>
                (case find (\<lambda>s. sym_name s = symbolName) (symbols tbl) of
                   Some s \<Rightarrow> Some s
                 | None \<Rightarrow> resolveLoop st h (t # visited) (dependencies tbl @ pending) symbolName)))"
  by pat_completeness auto
termination
proof (relation "measures [\<lambda>(st, h, visited, pending, symbolName).
                              length (filter (\<lambda>t. t \<notin> set visited) (allTables h)),
                            \<lambda>(st, h, visited, pending, symbolName). length pending]")
  show "wf (measures [\<lambda>(st, h, visited, pending, symbolName).
                              length (filter (\<lambda>t. t \<notin> set visited) (allTables h)),
                            \<lambda>(st, h, visited, pending, symbolName). length pending])"
    by simp
next
  fix st :: statics and h :: heap and visited pending :: "table_ref list" and t symbolName
  assume "t \<in> set visited"
  then show "((st, h, visited, pending, symbolName), (st, h, visited, t # pending, symbolName))
       \<in> measures [\<lambda>(st, h, visited, pending, symbolName).
                              length (filter (\<lambda>t. t \<notin> set visited) (allTables h)),
                            \<lambda>(st, h, visited, pending, symbolName). length pending]"
    by simp
next
  fix st :: statics and h :: heap and visited pending :: "table_ref list" and t symbolName
  assume "t \<notin> set visited" "tableOf st h t = None"
  then show "((st, h, visited, pending, symbolName), (st, h, visited, t # pending, symbolName))
       \<in> measures [\<lambda>(st, h, visited, pending, symbolName).
                              length (filter (\<lambda>t. t \<notin> set visited) (allTables h)),
                            \<lambda>(st, h, visited, pending, symbolName). length pending]"
    by simp
next
  fix st :: statics and h :: heap and visited pending :: "table_ref list" and t symbolName tbl
  assume nv: "t \<notin> set visited" and tb: "tableOf st h t = Some tbl"
    and "find (\<lambda>s. sym_name s = symbolName) (symbols tbl) = None"
  have mem: "t \<in> set (allTables h)"
    using tb by (cases t) (auto simp: tableOf_def allTables_def split: if_splits)
  let ?xs = "filter (\<lambda>u. u \<notin> set visited) (allTables h)"
  have "t \<in> set ?xs" using mem nv by simp
  then have "length (filter (\<lambda>u. u \<noteq> t) ?xs) < length ?xs"
    by (intro length_filter_less[of t]) simp_all
  moreover have "filter (\<lambda>u. u \<notin> set (t # visited)) (allTables h) = filter (\<lambda>u. u \<noteq> t) ?xs"
    by (auto intro: filter_cong)
  ultimately have "length (filter (\<lambda>u. u \<notin> set (t # visited)) (allTables h)) < length ?xs"
    by simp
  then show "((st, h, t # visited, dependencies tbl @ pending, symbolName),
        (st, h, visited, t # pending, symbolName))
       \<in> measures [\<lambda>(st, h, visited, pending, symbolName).
                              length (filter (\<lambda>t. t \<notin> set visited) (allTables h)),
                            \<lambda>(st, h, visited, pending, symbolName). length pending]"
    by simp
qed

text \<open>
  Modelled from the spec: \<^verbatim>\<open>resolveSync\<close> of the table, local or through the dependencies.
\<close>

definition resolveSync :: "statics \<Rightarrow> heap \<Rightarrow> table_ref \<Rightarrow> string \<Rightarrow> bool \<Rightarrow> BaseSymbol option" where
  "resolveSync st h t symbolName localOnly =
     (if localOnly
      then (case tableOf st h t of None \<Rightarrow> None
            | Some tbl \<Rightarrow> find (\<lambda>s. sym_name s = symbolName) (symbols tbl))
      else resolveLoop st h [] [t] symbolName)"

text \<open>\<^verbatim>\<open>SourceContext.resolveSymbol\<close>.\<close>

definition resolveSymbol :: "statics \<Rightarrow> heap \<Rightarrow> cid \<Rightarrow> string \<Rightarrow> BaseSymbol option" where
  "resolveSymbol st h this symbolName = resolveSync st h (TableOf this) symbolName False"

text \<open>The table has a top-level symbol of that name.\<close>

definition declares :: "statics \<Rightarrow> heap \<Rightarrow> table_ref \<Rightarrow> string \<Rightarrow> bool" where
  "declares st h t symbolName =
     (case tableOf st h t of None \<Rightarrow> False
      | Some tbl \<Rightarrow> symbolName \<in> set (map sym_name (symbols tbl)))"

section \<open>Evaluation of arrow expressions\<close>

text \<open>
  \<^verbatim>\<open>ArrowSymbol\<close>. The sub-expressions \<^verbatim>\<open>source\<close> and \<^verbatim>\<open>target\<close> are evaluatable symbols of
  classes outside the source files; each is given by the range of its parse-tree context
  and by the value its \<^verbatim>\<open>eval\<close> returns. \<^verbatim>\<open>methodInvocation\<close> is given by the values of its
  arguments. \<open>owner\<close> is \<^verbatim>\<open>(this.symbolTable as ContextSymbolTable).owner\<close>.
\<close>

record StackValue =
  sv_value :: js_value
  sv_type :: "string option"

record TargetSymbol =
  target_range :: lex_range
  target_eval :: "string option"

record ArrowSymbol =
  arrow_name :: string
  arrow_range :: lex_range
  owner :: cid
  arrowType :: ArrowType
  source_eval :: "StackValue option"
  target :: "TargetSymbol option"
  methodInvocation :: "js_value list option"
  functionName :: "string option"
  objectRef :: "cid option"
  objContext :: "cid option"

text \<open>
  \<^verbatim>\<open>SourceContext.addDiagnostic\<close> pushes onto the unit's list. The helper
  \<^verbatim>\<open>addDiagnostic(symbol, entry)\<close> of the symbols module is taken to do the same on the owner
  of the symbol's table, as the one inlined call in \<^verbatim>\<open>evalCallOther\<close> does.
\<close>

definition addDiagnostic :: "world \<Rightarrow> cid \<Rightarrow> IDiagnosticEntry \<Rightarrow> world" where
  "addDiagnostic w c d =
     \<lparr>heap = (heap w)[c := (heap w ! c)\<lparr>diagnostics := diagnostics (heap w ! c) @ [d]\<rparr>],
      events = events w @ [DiagnosticAdded c d]\<rparr>"

definition evalStruct :: "world \<Rightarrow> ArrowSymbol \<Rightarrow> js_value \<Rightarrow> js_value \<times> world" where
  "evalStruct w arrow scope =
     (case target arrow of
        None \<Rightarrow>
          (scope, addDiagnostic w (owner arrow)
             \<lparr>message = ''Missing struct access member name '', range = arrow_range arrow,
              type = Error\<rparr>)
      | Some t \<Rightarrow>
          if methodInvocation arrow \<noteq> None
          then (scope, addDiagnostic w (owner arrow)
                  \<lparr>message = ''Cannot call methods on struct members'', range = target_range t,
                   type = Error\<rparr>)
          else (scope, w))"

text \<open>
  \<^verbatim>\<open>loadObject\<close>. The registration of the mesh edge may not end (see \<open>pipelineLoop\<close>), so
  the bound on its iterations is passed on and \<open>None\<close> is a run that needs more.
\<close>

definition loadObject ::
  "nat \<Rightarrow> collaborators \<Rightarrow> world \<Rightarrow> ArrowSymbol \<Rightarrow> string \<Rightarrow> (cid option \<times> world) option" where
  "loadObject n env w arrow filename =
     (case loadLpc env (normalizeFilename env (filenameToAbsolutePath env filename)) (heap w) of
        (None, h) \<Rightarrow>
          Some (None,
            addDiagnostic \<lparr>heap = h, events = events w @ [ObjectLoad filename]\<rparr> (owner arrow)
              \<lparr>message = ''could not load source for: '' @ filename, range = arrow_range arrow,
               type = Warning\<rparr>)
      | (Some sourceContext, h) \<Rightarrow>
          (case addAsReferenceTo n h (owner arrow) sourceContext True of
             None \<Rightarrow> None
           | Some h' \<Rightarrow>
               Some (Some sourceContext, \<lparr>heap = h', events = events w @ [ObjectLoad filename]\<rparr>)))"

text \<open>
  The second half of \<^verbatim>\<open>evalCallOther\<close>, from the evaluation of the function name on.
  \<^verbatim>\<open>!this.functionName\<close> holds for \<^verbatim>\<open>undefined\<close> and for the empty string.
\<close>

definition mayBeUndefined :: "string option \<Rightarrow> string" where
  "mayBeUndefined fn =
     ''Function '' @ [CHR 0x27] @ (case fn of None \<Rightarrow> [] | Some f \<Rightarrow> f) @ [CHR 0x27]
       @ '' may be undefined''"

definition callFunction ::
  "collaborators \<Rightarrow> world \<Rightarrow> CallStack \<Rightarrow> ArrowSymbol \<Rightarrow>
   js_value \<times> world \<times> CallStack \<times> ArrowSymbol" where
  "callFunction env w stack arrow0 =
     (let fn = (if functionName arrow0 = None \<or> functionName arrow0 = Some []
                   \<or> functionName arrow0 = Some ''#fn''
                then (case target arrow0 of None \<Rightarrow> None | Some t \<Rightarrow> target_eval t)
                else functionName arrow0);
          arrow = arrow0\<lparr>functionName := fn\<rparr>
      in case objContext arrow of
           None \<Rightarrow>
             (Undefined,
              addDiagnostic w (owner arrow)
                \<lparr>message = mayBeUndefined fn,
                 range = (case target arrow of None \<Rightarrow> arrow_range arrow
                          | Some t \<Rightarrow> target_range t),
                 type = Error\<rparr>,
              stack, arrow)
         | Some c \<Rightarrow>
             (case getFunction env (symbolTable (heap w ! c)) fn of
                None \<Rightarrow>
                  (Undefined,
                   addDiagnostic (logEvent (FunctionLookup c fn) w) (owner arrow)
                     \<lparr>message = mayBeUndefined fn,
                      range = (case target arrow of None \<Rightarrow> arrow_range arrow
                               | Some t \<Rightarrow> target_range t),
                      type = Error\<rparr>,
                   stack, arrow)
              | Some funSym \<Rightarrow>
                  (let rootFrame = StackFrame (TableFrame c) [] [] None;
                       stackFrame = StackFrame (FunctionFrame funSym) [] [] (Some rootFrame)
                   in case evalFunction env funSym (stackFrame # stack) (methodInvocation arrow)
                             (heap w) of
                        (result, h) \<Rightarrow>
                          (result,
                           \<lparr>heap = h,
                            events = events w @ [FunctionLookup c fn, FramePush, FramePop]\<rparr>,
                           stack, arrow))))"

text \<open>\<^verbatim>\<open>srcValue?.value\<close>.\<close>

definition sourceObject :: "StackValue option \<Rightarrow> js_value" where
  "sourceObject srcValue = (case srcValue of None \<Rightarrow> Undefined | Some sv \<Rightarrow> sv_value sv)"

text \<open>
  \<^verbatim>\<open>evalCallOther\<close>. The frame pushed for the call is popped after it, and the callee is taken
  to leave the stack as it found it, so the stack returned is the one received.
\<close>

definition evalCallOther ::
  "nat \<Rightarrow> collaborators \<Rightarrow> world \<Rightarrow> CallStack \<Rightarrow> ArrowSymbol \<Rightarrow> js_value \<Rightarrow>
   StackValue option \<Rightarrow> (js_value \<times> world \<times> CallStack \<times> ArrowSymbol) option" where
  "evalCallOther n env w stack arrow scope srcValue =
     (let w1 = (case target arrow of
                  None \<Rightarrow>
                    addDiagnostic w (owner arrow)
                      \<lparr>message = ''Missing method name'', range = arrow_range arrow,
                       type = Error\<rparr>
                | Some t \<Rightarrow>
                    if methodInvocation arrow = None
                    then addDiagnostic w (owner arrow)
                           \<lparr>message = ''Missing ()'', range = target_range t, type = Error\<rparr>
                    else w)
      in case sourceObject srcValue of
           StringValue obj \<Rightarrow>
             (case loadObject n env w1 arrow obj of
                None \<Rightarrow> None
              | Some (ctx, w2) \<Rightarrow> Some (callFunction env w2 stack (arrow\<lparr>objContext := ctx\<rparr>)))
         | ObjectReferenceInfo c \<Rightarrow>
             Some (callFunction env w1 stack (arrow\<lparr>objectRef := Some c, objContext := Some c\<rparr>))
         | Undefined \<Rightarrow> Some (Undefined, w1, stack, arrow)
         | OtherValue v \<Rightarrow> Some (Undefined, w1, stack, arrow))"

definition isStruct :: "StackValue option \<Rightarrow> bool" where
  "isStruct srcValue = (case srcValue of None \<Rightarrow> False | Some sv \<Rightarrow> sv_type sv = Some ''struct'')"

definition eval ::
  "nat \<Rightarrow> collaborators \<Rightarrow> world \<Rightarrow> CallStack \<Rightarrow> ArrowSymbol \<Rightarrow> js_value \<Rightarrow>
   (js_value \<times> world \<times> CallStack \<times> ArrowSymbol) option" where
  "eval n env w stack arrow scope =
     (let srcValue = source_eval arrow
      in if isStruct srcValue
         then (case evalStruct w (arrow\<lparr>arrowType := StructMember\<rparr>) scope of
                 (r, w') \<Rightarrow> Some (r, w', stack, arrow\<lparr>arrowType := StructMember\<rparr>))
         else evalCallOther n env w stack (arrow\<lparr>arrowType := CallOther\<rparr>) scope srcValue)"

text \<open>The events a run has added, and the diagnostics among them.\<close>

definition newEvents :: "world \<Rightarrow> world \<Rightarrow> event list" where
  "newEvents w w' = drop (length (events w)) (events w')"

fun diagnosticsOf :: "event list \<Rightarrow> IDiagnosticEntry list" where
  "diagnosticsOf [] = []"
| "diagnosticsOf (DiagnosticAdded c d # es) = d # diagnosticsOf es"
| "diagnosticsOf (e # es) = diagnosticsOf es"

section \<open>Include and inherit file names\<close>

text \<open>
  \<^verbatim>\<open>resolveFilename\<close> uses the file system, node's \<^verbatim>\<open>path\<close> module, \<^verbatim>\<open>URI.parse\<close>, the facade
  and two helpers of the utilities module; they are given.
\<close>

record filesystem =
  existsSync :: "string \<Rightarrow> bool"
  path_join :: "string \<Rightarrow> string \<Rightarrow> string"
  path_dirname :: "string \<Rightarrow> string"
  path_isAbsolute :: "string \<Rightarrow> bool"
  fsPath :: "string \<Rightarrow> string"
  testFilename :: "string \<Rightarrow> string \<Rightarrow> string \<Rightarrow> string"
  normalizeFilename_fs :: "string \<Rightarrow> string"
  getContextEntry_filename :: "string \<Rightarrow> string"
  workspaceDir :: string

datatype DependencySearchType = Local | Global

record resolved_filename =
  res_filename :: string
  fullPath :: "string option"
  res_type :: "DependencySearchType option"

definition basePath :: "filesystem \<Rightarrow> SourceContext \<Rightarrow> string" where
  "basePath fs c =
     (let contextFullPath = getContextEntry_filename fs (fileName c);
          contextFilename = (if take 5 contextFullPath = ''file:'' then fsPath fs contextFullPath
                             else contextFullPath)
      in path_dirname fs contextFilename)"

definition fullImportDirs :: "filesystem \<Rightarrow> SourceContext \<Rightarrow> string list" where
  "fullImportDirs fs c =
     map (\<lambda>dir. if path_isAbsolute fs dir then dir else path_join fs (basePath fs c) dir)
       (importDir c)"

text \<open>
  The two tests on the raw text: the pair of the text without its delimiters and the
  search type. The second test runs only when the first left the text as it was.
\<close>

definition searchType :: "filesystem \<Rightarrow> string \<Rightarrow> string \<times> DependencySearchType" where
  "searchType fs depName =
     (let f1 = testFilename fs depName [CHR 0x22] [CHR 0x22]
      in if depName \<noteq> f1 then (f1, Local)
         else (let f2 = testFilename fs f1 ''<'' ''>''
               in if depName \<noteq> f2 then (f2, Global) else (f2, Local)))"

definition searchPaths :: "filesystem \<Rightarrow> SourceContext \<Rightarrow> string \<Rightarrow> string list" where
  "searchPaths fs c filename0 =
     (case searchType fs filename0 of
        (filename, fileType) \<Rightarrow>
          (let filenameNormed = normalizeFilename_fs fs filename;
               paths = basePath fs c # fullImportDirs fs c;
               ordered = (if fileType = Global then rev paths else paths)
           in if CHR ''/'' \<in> set filenameNormed then ordered @ [workspaceDir fs] else ordered))"

fun searchLoop ::
  "filesystem \<Rightarrow> string \<Rightarrow> DependencySearchType \<Rightarrow> string \<Rightarrow> string list \<Rightarrow> resolved_filename" where
  "searchLoop fs filenameNormed fileType filename [] =
     \<lparr>res_filename = filename, fullPath = None, res_type = None\<rparr>"
| "searchLoop fs filenameNormed fileType filename (p # ps) =
     (if existsSync fs (path_join fs p filenameNormed)
      then \<lparr>res_filename = filenameNormed, fullPath = Some (path_join fs p filenameNormed),
            res_type = Some fileType\<rparr>
      else searchLoop fs filenameNormed fileType filename ps)"

definition resolveFilename :: "filesystem \<Rightarrow> SourceContext \<Rightarrow> string \<Rightarrow> resolved_filename" where
  "resolveFilename fs c filename0 =
     (case searchType fs filename0 of
        (filename, fileType) \<Rightarrow>
          searchLoop fs (normalizeFilename_fs fs filename) fileType filename
            (searchPaths fs c filename0))"

section \<open>Notions used in the statements\<close>

subsection \<open>Well-formed meshes\<close>

text \<open>
  A mesh without a cycle: some rank decreases along every edge from a unit to a unit
  that references it, and every reference is a unit of the heap.
\<close>

definition acyclic_mesh :: "heap \<Rightarrow> (cid \<Rightarrow> nat) \<Rightarrow> bool" where
  "acyclic_mesh h rank =
     (\<forall>c < length h. \<forall>r \<in> set (references (h ! c)). r < length h \<and> rank r < rank c)"

text \<open>
  A heap with no analysis pending: every unit has its flag set or has no tree, so that
  \<^verbatim>\<open>runSemanticAnalysisIfNeeded\<close> walks nothing; and every reference is a unit of the heap.
\<close>

definition analysed :: "heap \<Rightarrow> bool" where
  "analysed h =
     (\<forall>c < length h. (semanticAnalysisDone (h ! c) \<or> tree (h ! c) = None)
        \<and> (\<forall>r \<in> set (references (h ! c)). r < length h))"

subsection \<open>Transitive referencers\<close>

text \<open>
  The edges of the mesh, from a unit to each unit of its \<^verbatim>\<open>references\<close> list, that is to each
  unit that references it. A references B transitively when a chain of such edges leads
  from B to A: A is in B's list, or in the list of a unit that references B transitively.
\<close>

definition meshEdges :: "heap \<Rightarrow> (cid \<times> cid) set" where
  "meshEdges h = {(c, r). r \<in> set (references (h ! c))}"

definition transitivelyReferences :: "heap \<Rightarrow> cid \<Rightarrow> cid \<Rightarrow> bool" where
  "transitivelyReferences h A B = ((B, A) \<in> (meshEdges h)\<^sup>+)"

subsection \<open>The calls made by one reference count\<close>

text \<open>
  \<open>visits env s c w i steps w'\<close>: starting in world \<open>w\<close> at index \<open>i\<close> of the \<^verbatim>\<open>references\<close> of
  unit \<open>c\<close>, the list \<open>steps\<close> holds, for each unit of that list in turn, the number that its
  \<^verbatim>\<open>getReferenceCount\<close> returned and the world it left, up to the end of the list as it is
  then, in world \<open>w'\<close>.
\<close>

fun visits ::
  "collaborators \<Rightarrow> string \<Rightarrow> cid \<Rightarrow> world \<Rightarrow> nat \<Rightarrow> (nat \<times> world) list \<Rightarrow> world \<Rightarrow> bool" where
  "visits env s c w i [] w' = (w' = w \<and> \<not> i < length (references (heap w ! c)))"
| "visits env s c w i ((r1, w1) # steps) w' =
     (i < length (references (heap w ! c))
      \<and> (\<exists>n. getReferenceCount n env w (references (heap w ! c) ! i) s = Some (r1, w1))
      \<and> visits env s c w1 (Suc i) steps w')"

subsection \<open>The merge loop of the completion\<close>

text \<open>The invariant of the merge loop: the names pushed so far, in order, without repetition.\<close>

definition merge_inv :: "ISymbolInfo list \<Rightarrow> string list \<times> ISymbolInfo list \<Rightarrow> bool" where
  "merge_inv pre st = (case st of (names, result) \<Rightarrow>
     (\<exists>d. result = pre @ d \<and> map name d = rev names) \<and> distinct names \<and> ''EOF'' \<notin> set names)"

section \<open>Concrete inputs\<close>

subsection \<open>A completion request\<close>

text \<open>A concrete completion request, used to exercise the definitions.\<close>

definition ex_symbol :: "string \<Rightarrow> SymbolKind \<Rightarrow> BaseSymbol" where
  "ex_symbol n k =
     \<lparr>sym_name = n, sym_kind = Some k, isEfunSymbol = (k = Efun), owner_fileName = Some ''a.c''\<rparr>"

definition ex_lookups :: lookups where
  "ex_lookups =
     \<lparr>efuns = Some [ex_symbol ''EOF'' Efun, ex_symbol ''write'' Efun],
      variables = Some [ex_symbol ''x'' Variable],
      methods = None,
      methodDeclarations = Some [ex_symbol ''write'' MethodDeclaration, ex_symbol ''x'' Method]\<rparr>"

subsection \<open>Three concrete units\<close>

text \<open>
  Units 0, 1 and 2 (files a.c, b.c and c.c), parsed and analysed; b.c and c.c declare
  \<^verbatim>\<open>foo\<close>. \<open>ex_ab\<close> is the heap after unit 0 called \<^verbatim>\<open>addAsReferenceTo\<close> on unit 1, and
  \<open>ex_chain\<close> the heap after unit 1 then called it on unit 2. \<open>ex_env\<close> gives the
  collaborators a simple behaviour: the parser returns a one-node tree, the details
  visitor finds nothing, the semantic walk adds one warning to the unit, a table counts its
  own symbols of the name, and no file can be loaded.
\<close>

definition ex_unit :: "string \<Rightarrow> BaseSymbol list \<Rightarrow> cid list \<Rightarrow> table_ref list \<Rightarrow> SourceContext" where
  "ex_unit f syms refs deps =
     \<lparr>fileName = f, importDir = [], inputStream = [],
      info = \<lparr>info_imports = [], info_objectImports = []\<rparr>, diagnostics = [],
      references = refs, semanticAnalysisDone = True, tree = Some (Node 0 []),
      symbolTable = \<lparr>symbols = syms, dependencies = deps, table_tree = Some (Node 0 [])\<rparr>\<rparr>"

definition ex_foo :: BaseSymbol where
  "ex_foo = ex_symbol ''foo'' Method"

definition ex_units :: heap where
  "ex_units = [ex_unit ''a.c'' [] [] [], ex_unit ''b.c'' [ex_foo] [] [],
               ex_unit ''c.c'' [ex_foo] [] []]"

definition ex_ab :: heap where
  "ex_ab = [ex_unit ''a.c'' [] [] [TableOf 1], ex_unit ''b.c'' [ex_foo] [0] [],
            ex_unit ''c.c'' [ex_foo] [] []]"

definition ex_chain :: heap where
  "ex_chain = [ex_unit ''a.c'' [] [] [TableOf 1], ex_unit ''b.c'' [ex_foo] [0] [TableOf 2],
               ex_unit ''c.c'' [ex_foo] [1] []]"

definition ex_dw :: IDiagnosticEntry where
  "ex_dw = \<lparr>message = ''unused variable'', range = (5, 5), type = Warning\<rparr>"

definition ex_env :: collaborators where
  "ex_env =
     \<lparr>program = (\<lambda>mode input. Program (Node 0 []) []),
      detailsVisitor = (\<lambda>t. ([], [], [])),
      semanticWalk = (\<lambda>c t h. h[c := (h ! c)\<lparr>diagnostics := diagnostics (h ! c) @ [ex_dw]\<rparr>]),
      tableReferenceCount = (\<lambda>t n. count_list (map sym_name (symbols t)) n),
      getFunction = (\<lambda>t n. find (\<lambda>s. Some (sym_name s) = n) (symbols t)),
      loadLpc = (\<lambda>f h. (None, h)),
      filenameToAbsolutePath = (\<lambda>f. f),
      normalizeFilename = (\<lambda>f. f),
      evalFunction = (\<lambda>f stack args h. (Undefined, h))\<rparr>"

definition ex_world :: world where
  "ex_world = \<lparr>heap = ex_chain, events = []\<rparr>"

subsection \<open>Concrete parsers, arrows and a file system\<close>






definition ex_env_load :: collaborators where
  "ex_env_load = ex_env\<lparr>loadLpc := (\<lambda>f h. (Some 1, h))\<rparr>"


text \<open>
  \<open>ex_arrow\<close> is \<^verbatim>\<open>"obj.c"->\<close> in unit 0, without target and without call;
  \<open>ex_call_arrow\<close> is \<^verbatim>\<open>"missing.c"->foo()\<close>; \<open>ex_struct_arrow\<close> has a source of struct type, no
  target and a call; \<open>ex_struct_call\<close> has a source of struct type, a target and a call.
\<close>

definition ex_arrow :: ArrowSymbol where
  "ex_arrow =
     \<lparr>arrow_name = ''->'', arrow_range = (1, 2), owner = 0, arrowType = CallOther,
      source_eval = Some \<lparr>sv_value = StringValue ''obj.c'', sv_type = None\<rparr>,
      target = None, methodInvocation = None, functionName = None, objectRef = None,
      objContext = None\<rparr>"

definition ex_call_arrow :: ArrowSymbol where
  "ex_call_arrow =
     ex_arrow\<lparr>source_eval := Some \<lparr>sv_value = StringValue ''missing.c'', sv_type = None\<rparr>,
              target := Some \<lparr>target_range = (3, 3), target_eval = Some ''foo''\<rparr>,
              methodInvocation := Some []\<rparr>"

definition ex_struct_arrow :: ArrowSymbol where
  "ex_struct_arrow =
     ex_arrow\<lparr>source_eval := Some \<lparr>sv_value = OtherValue 0, sv_type = Some ''struct''\<rparr>,
              methodInvocation := Some []\<rparr>"

definition ex_struct_call :: ArrowSymbol where
  "ex_struct_call =
     ex_struct_arrow\<lparr>target := Some \<lparr>target_range = (3, 3), target_eval = Some ''foo''\<rparr>\<rparr>"

text \<open>
  A file system with three header files, and the unit \<^verbatim>\<open>file:///mud/obj/a.c\<close> with an
  absolute and a relative import directory.
\<close>

definition ex_dirname :: "string \<Rightarrow> string" where
  "ex_dirname p = rev (tl (dropWhile (\<lambda>ch. ch \<noteq> CHR ''/'') (rev p)))"

definition ex_fs :: filesystem where
  "ex_fs =
     \<lparr>existsSync = (\<lambda>p. p = ''/lib/inc/x.h'' \<or> p = ''/mud/obj/inc/x.h'' \<or> p = ''/mud/sys/y.h''),
      path_join = (\<lambda>a b. a @ ''/'' @ b),
      path_dirname = ex_dirname,
      path_isAbsolute = (\<lambda>p. take 1 p = ''/''),
      fsPath = (\<lambda>p. drop 7 p),
      testFilename = (\<lambda>f c e. if 2 \<le> length f \<and> take 1 f = c \<and> [last f] = e
                               then butlast (tl f) else f),
      normalizeFilename_fs = (\<lambda>f. f),
      getContextEntry_filename = (\<lambda>f. ''file:///mud/obj/'' @ f),
      workspaceDir = ''/mud''\<rparr>"

definition ex_includer :: SourceContext where
  "ex_includer = (ex_unit ''a.c'' [] [] [])\<lparr>importDir := [''/lib/inc'', ''inc'']\<rparr>"

definition ex_quoted :: string where
  "ex_quoted = [CHR 0x22, CHR ''x'', CHR ''.'', CHR ''h'', CHR 0x22]"

subsection \<open>Static tables and a single edge\<close>

text \<open>
  \<open>ex_edge\<close> is the heap after unit 0 called \<^verbatim>\<open>addAsReferenceTo\<close> on unit 1 without merging
  the symbols.
\<close>

definition ex_statics :: statics where
  "ex_statics =
     \<lparr>globalSymbols = \<lparr>symbols = [], dependencies = [], table_tree = None\<rparr>,
      efunSymbols = \<lparr>symbols = [ex_symbol ''write'' Efun], dependencies = [],
                     table_tree = None\<rparr>\<rparr>"

definition ex_edge :: heap where
  "ex_edge = [ex_unit ''a.c'' [] [] [], ex_unit ''b.c'' [ex_foo] [0] [],
              ex_unit ''c.c'' [ex_foo] [] []]"

section \<open>Properties of the reference mesh\<close>

lemma pipelineLoop_terminates:
  assumes ac: "acyclic_mesh h rank"
  shows "\<forall>c \<in> set pipeline. c < length h \<Longrightarrow> \<exists>n. pipelineLoop n h this pipeline \<noteq> None"
proof (induction "image_mset rank (mset pipeline)" arbitrary: pipeline rule: less_induct)
  case less
  show ?case
  proof (cases pipeline)
    case Nil
    then have "pipelineLoop (Suc 0) h this pipeline \<noteq> None" by simp
    then show ?thesis by blast
  next
    case (Cons current rest)
    show ?thesis
    proof (cases "this \<in> set (references (h ! current))")
      case True
      then have "pipelineLoop (Suc 0) h this pipeline \<noteq> None" using Cons by simp
      then show ?thesis by blast
    next
      case False
      let ?p = "rest @ references (h ! current)"
      have cur: "current < length h" using less.prems Cons by simp
      have refs: "\<forall>r \<in> set (references (h ! current)). r < length h \<and> rank r < rank current"
        using ac cur by (simp add: acyclic_mesh_def)
      have "image_mset rank (mset (references (h ! current))) < {#rank current#}"
        using refs by simp
      then have "image_mset rank (mset rest) + image_mset rank (mset (references (h ! current)))
                 < image_mset rank (mset rest) + {#rank current#}"
        by (rule add_strict_left_mono)
      then have lt: "image_mset rank (mset ?p) < image_mset rank (mset pipeline)"
        using Cons by simp
      have inr: "\<forall>c \<in> set ?p. c < length h" using less.prems Cons refs by auto
      from less.hyps[OF lt inr] obtain n where "pipelineLoop n h this ?p \<noteq> None" by blast
      then have "pipelineLoop (Suc n) h this pipeline \<noteq> None" using Cons False by simp
      then show ?thesis by blast
    qed
  qed
qed

lemma pipelineLoop_absent:
  "pipelineLoop n h this (c # rest) = Some False \<Longrightarrow> this \<notin> set (references (h ! c))"
  by (cases n) (auto split: if_splits)

lemma pipelineLoop_direct:
  "this \<in> set (references (h ! c)) \<Longrightarrow> pipelineLoop (Suc n) h this (c # rest) = Some True"
  by simp

lemma pipelineLoop_True:
  "pipelineLoop n h this pipeline = Some True \<Longrightarrow>
   \<exists>c \<in> set pipeline. transitivelyReferences h this c"
proof (induction n h this pipeline rule: pipelineLoop.induct)
  case (1 h this pipeline)
  then show ?case by simp
next
  case (2 n h this)
  then show ?case by simp
next
  case (3 n h this current rest)
  show ?case
  proof (cases "this \<in> set (references (h ! current))")
    case True
    then have "(current, this) \<in> meshEdges h" by (simp add: meshEdges_def)
    then show ?thesis by (auto simp: transitivelyReferences_def)
  next
    case False
    then have "pipelineLoop n h this (rest @ references (h ! current)) = Some True"
      using 3(2) by simp
    from 3(1)[OF False this] obtain c where
      c: "c \<in> set (rest @ references (h ! current))" "transitivelyReferences h this c" by blast
    show ?thesis
    proof (cases "c \<in> set rest")
      case True
      then show ?thesis using c by auto
    next
      case False
      then have "(current, c) \<in> meshEdges h" using c by (simp add: meshEdges_def)
      then have "(current, this) \<in> (meshEdges h)\<^sup>+"
        using c(2) by (auto simp: transitivelyReferences_def)
      then show ?thesis by (auto simp: transitivelyReferences_def)
    qed
  qed
qed

lemma pipelineLoop_False:
  "pipelineLoop n h this pipeline = Some False \<Longrightarrow>
   \<forall>c \<in> set pipeline. \<not> transitivelyReferences h this c"
proof (induction n h this pipeline rule: pipelineLoop.induct)
  case (1 h this pipeline)
  then show ?case by simp
next
  case (2 n h this)
  then show ?case by simp
next
  case (3 n h this current rest)
  have nd: "this \<notin> set (references (h ! current))" using 3(2) by (auto split: if_splits)
  then have "pipelineLoop n h this (rest @ references (h ! current)) = Some False"
    using 3(2) by simp
  from 3(1)[OF nd this] have ih:
    "\<forall>c \<in> set (rest @ references (h ! current)). \<not> transitivelyReferences h this c" .
  have "\<not> transitivelyReferences h this current"
  proof
    assume "transitivelyReferences h this current"
    then have "(current, this) \<in> (meshEdges h)\<^sup>+" by (simp add: transitivelyReferences_def)
    then obtain z where z: "(current, z) \<in> meshEdges h" "(z, this) \<in> (meshEdges h)\<^sup>*"
      by (meson tranclD)
    have zr: "z \<in> set (references (h ! current))" using z(1) by (simp add: meshEdges_def)
    show False
    proof (cases "z = this")
      case True
      then show False using zr nd by simp
    next
      case False
      then have "(z, this) \<in> (meshEdges h)\<^sup>+" using z(2) by (meson rtranclD)
      then show False using ih zr by (auto simp: transitivelyReferences_def)
    qed
  qed
  then show ?case using ih by auto
qed

lemma guard_decides:
  "pipelineLoop n h A [B] = Some b \<Longrightarrow> b = transitivelyReferences h A B"
  using pipelineLoop_True[of n h A "[B]"] pipelineLoop_False[of n h A "[B]"]
  by (cases b) auto

lemma addAsReferenceTo_effect:
  assumes B: "B < length h" and r: "addAsReferenceTo n h A B m = Some h'"
  shows "(if transitivelyReferences h A B
          then h' = h
          else count_list (getReferences h B) A = 0
               \<and> getReferences h' B = getReferences h B @ [A]
               \<and> (\<forall>c < length h. c \<noteq> B \<longrightarrow> getReferences h' c = getReferences h c))
         \<and> addAsReferenceTo n h' A B m' = Some h'"
proof -
  obtain b where b: "pipelineLoop n h A [B] = Some b"
    using r by (cases "pipelineLoop n h A [B]") (simp_all add: addAsReferenceTo_def)
  have t: "b = transitivelyReferences h A B" using b by (rule guard_decides)
  obtain k where n: "n = Suc k" using b by (cases n) simp_all
  show ?thesis
  proof (cases b)
    case True
    then have "h' = h" using r b by (simp add: addAsReferenceTo_def)
    then show ?thesis using True b t by (simp add: addAsReferenceTo_def)
  next
    case False
    have nd: "A \<notin> set (references (h ! B))"
      using b False pipelineLoop_absent[of n h A B "[]"] by simp
    have refs: "getReferences h' B = getReferences h B @ [A]"
      using r b False B
      by (auto simp: addAsReferenceTo_def getReferences_def Let_def nth_list_update split: if_splits)
    have others: "\<forall>c < length h. c \<noteq> B \<longrightarrow> getReferences h' c = getReferences h c"
    proof (intro allI impI)
      fix c assume c: "c < length h" "c \<noteq> B"
      show "getReferences h' c = getReferences h c"
      proof (cases "c = A")
        case True
        then show ?thesis using r b False c
          by (auto simp: addAsReferenceTo_def getReferences_def Let_def split: if_splits)
      next
        case neq: False
        then show ?thesis using r b False c
          by (auto simp: addAsReferenceTo_def getReferences_def Let_def split: if_splits)
      qed
    qed
    have "A \<in> set (references (h' ! B))" using refs by (simp add: getReferences_def)
    then have "pipelineLoop n h' A [B] = Some True" using n by simp
    then have "addAsReferenceTo n h' A B m' = Some h'" by (simp add: addAsReferenceTo_def)
    then show ?thesis using refs others nd False t by (simp add: getReferences_def)
  qed
qed

lemma addAsReferenceTo_returns:
  assumes "B < length h" and "acyclic_mesh h rank"
  shows "\<exists>k. addAsReferenceTo k h A B m \<noteq> None"
proof -
  have "\<forall>c \<in> set [B]. c < length h" using assms by simp
  then obtain k where "pipelineLoop k h A [B] \<noteq> None"
    using pipelineLoop_terminates assms by blast
  then have "addAsReferenceTo k h A B m \<noteq> None"
    by (auto simp: addAsReferenceTo_def Let_def split: option.splits bool.splits)
  then show ?thesis by blast
qed

text \<open>
  Mutual inclusion makes the guard loop run forever: after a.c and b.c have registered
  with each other, c.c can no longer register with a.c, whatever the number of iterations
  allowed.
\<close>

lemma pipelineLoop_mutual_inclusion:
  "pipelineLoop n [ex_unit ''a.c'' [] [1] [], ex_unit ''b.c'' [] [0] [], ex_unit ''c.c'' [] [] []] 2 [0]
     = None
   \<and> pipelineLoop n [ex_unit ''a.c'' [] [1] [], ex_unit ''b.c'' [] [0] [], ex_unit ''c.c'' [] [] []] 2 [1]
     = None"
  by (induction n) (simp_all add: ex_unit_def)

lemma ex_units_calls:
  "addAsReferenceTo 2 ex_units 0 1 True = Some ex_ab"
  "addAsReferenceTo 2 ex_ab 1 2 True = Some ex_chain"
  by (simp_all add: addAsReferenceTo_def ex_units_def ex_ab_def ex_chain_def ex_unit_def
      addDependencies_def numeral_2_eq_2)

text \<open>
  Claim C4, as the code has it. The guard of \<^verbatim>\<open>A.addAsReferenceTo(B)\<close>, whenever it answers,
  answers "already in the list" exactly when A references B transitively. When the call
  returns and A referenced B transitively, nothing has changed; when it returns and A did
  not, A was not in \<^verbatim>\<open>B.getReferences()\<close>, has been appended to it once, and no other list of
  references has changed. In both cases a further call returns the same heap. On a mesh
  without a cycle the call returns.
\<close>

theorem addAsReferenceTo_registers_once:
  "(pipelineLoop n h A [B] = Some b \<longrightarrow> b = transitivelyReferences h A B)
   \<and> (B < length h \<and> addAsReferenceTo n h A B m = Some h' \<longrightarrow>
        (if transitivelyReferences h A B
         then h' = h
         else count_list (getReferences h B) A = 0
              \<and> getReferences h' B = getReferences h B @ [A]
              \<and> (\<forall>c < length h. c \<noteq> B \<longrightarrow> getReferences h' c = getReferences h c))
        \<and> addAsReferenceTo n h' A B m' = Some h')
   \<and> (B < length h \<and> acyclic_mesh h rank \<longrightarrow> (\<exists>k. addAsReferenceTo k h A B m \<noteq> None))"
  using guard_decides[of n h A B b] addAsReferenceTo_effect[of B h n A m h' m']
    addAsReferenceTo_returns[of B h rank A m]
  by blast

theorem addAsReferenceTo_registers_once_witness:
  "1 < length ex_units \<and> pipelineLoop 2 ex_units 0 [1] = Some False
   \<and> addAsReferenceTo 2 ex_units 0 1 True = Some ex_ab
   \<and> acyclic_mesh ex_units (\<lambda>c. c)
   \<and> \<not> transitivelyReferences ex_units 0 1
   \<and> count_list (getReferences ex_units 1) 0 = 0
   \<and> getReferences ex_ab 1 = getReferences ex_units 1 @ [0]
   \<and> addAsReferenceTo 2 ex_ab 0 1 True = Some ex_ab
   \<and> (\<exists>k. addAsReferenceTo k ex_units 0 1 True \<noteq> None)
   \<and> 2 < length ex_chain \<and> pipelineLoop 3 ex_chain 0 [2] = Some True
   \<and> transitivelyReferences ex_chain 0 2
   \<and> addAsReferenceTo 3 ex_chain 0 2 True = Some ex_chain"
proof -
  have l: "1 < length ex_units" "2 < length ex_chain" by (simp_all add: ex_units_def ex_chain_def)
  have c: "addAsReferenceTo 2 ex_units 0 1 True = Some ex_ab" by (rule ex_units_calls(1))
  have a: "acyclic_mesh ex_units (\<lambda>c. c)"
    by (simp add: acyclic_mesh_def ex_units_def ex_unit_def nth_Cons')
  have p: "pipelineLoop 2 ex_units 0 [1] = Some False"
    by (simp add: ex_units_def ex_unit_def numeral_2_eq_2)
  have q: "pipelineLoop 3 ex_chain 0 [2] = Some True"
    by (simp add: ex_chain_def ex_unit_def numeral_3_eq_3)
  have d: "addAsReferenceTo 3 ex_chain 0 2 True = Some ex_chain"
    using q by (simp add: addAsReferenceTo_def)
  note first = addAsReferenceTo_registers_once [of 2 ex_units 0 1 False True ex_ab True "\<lambda>c. c"]
  have nt: "\<not> transitivelyReferences ex_units 0 1" using first p by blast
  have u: "\<not> transitivelyReferences ex_units 0 1
     \<and> count_list (getReferences ex_units 1) 0 = 0
     \<and> getReferences ex_ab 1 = getReferences ex_units 1 @ [0]
     \<and> addAsReferenceTo 2 ex_ab 0 1 True = Some ex_ab
     \<and> (\<exists>k. addAsReferenceTo k ex_units 0 1 True \<noteq> None)"
    using first l(1) c a nt by auto
  from addAsReferenceTo_registers_once [of 3 ex_chain 0 2 True True ex_chain True "\<lambda>c. c"] q
  have v: "transitivelyReferences ex_chain 0 2" by blast
  show ?thesis using l c a p q d u v by blast
qed

text \<open>
  The claim as stated fails when A is present only transitively: unit 0 references
  unit 1 and unit 1 references unit 2; the call of unit 0 on unit 2 returns at the guard
  and unit 2's list of references does not contain unit 0.
\<close>

theorem addAsReferenceTo_exactly_once_counterexample:
  "addAsReferenceTo 2 ex_units 0 1 True = Some ex_ab
   \<and> addAsReferenceTo 2 ex_ab 1 2 True = Some ex_chain
   \<and> addAsReferenceTo 3 ex_chain 0 2 True = Some ex_chain
   \<and> count_list (getReferences ex_chain 2) 0 = 0"
  by (simp add: addAsReferenceTo_def ex_units_def ex_ab_def ex_chain_def ex_unit_def
      addDependencies_def getReferences_def numeral_2_eq_2 numeral_3_eq_3)

section \<open>Properties of reference counting\<close>

lemma analysed_run:
  "analysed (heap w) \<Longrightarrow> c < length (heap w) \<Longrightarrow> runSemanticAnalysisIfNeeded env w c = w"
  by (auto simp: analysed_def runSemanticAnalysisIfNeeded_def split: option.splits)

lemma analysed_ref:
  "analysed h \<Longrightarrow> c < length h \<Longrightarrow> i < length (references (h ! c)) \<Longrightarrow> references (h ! c) ! i < length h"
  by (simp add: analysed_def)

lemma count_facts:
  shows "analysed (heap w) \<Longrightarrow> c < length (heap w) \<Longrightarrow> getReferenceCount n env w c s = Some (r, w') \<Longrightarrow>
       w' = w \<and> tableReferenceCount env (symbolTable (heap w ! c)) s \<le> r
       \<and> (\<forall>j < length (references (heap w ! c)). \<exists>n' r'.
             getReferenceCount n' env w (references (heap w ! c) ! j) s = Some (r', w)
             \<and> tableReferenceCount env (symbolTable (heap w ! c)) s + r' \<le> r)"
    and "analysed (heap w) \<Longrightarrow> c < length (heap w) \<Longrightarrow> referencesLoop n env w c s i acc = Some (r, w') \<Longrightarrow>
       w' = w \<and> acc \<le> r
       \<and> (\<forall>j < length (references (heap w ! c)). i \<le> j \<longrightarrow> (\<exists>n' r'.
             getReferenceCount n' env w (references (heap w ! c) ! j) s = Some (r', w)
             \<and> acc + r' \<le> r))"
proof (induction n env w c s and n env w c s i acc arbitrary: r w' and r w'
        rule: getReferenceCount_referencesLoop.induct)
  case (1 env w this symbol)
  then show ?case by simp
next
  case (2 n env w this symbol)
  have run: "runSemanticAnalysisIfNeeded env w this = w"
    using "2.prems"(1,2) by (rule analysed_run)
  have loop: "referencesLoop n env w this symbol 0
          (tableReferenceCount env (symbolTable (heap w ! this)) symbol) = Some (r, w')"
    using "2.prems"(3) run by simp
  from "2.IH"[OF refl, unfolded run, OF "2.prems"(1) "2.prems"(2) loop]
  show ?case by simp
next
  case (3 env w this symbol i result)
  then show ?case by simp
next
  case (4 n env w this symbol i result)
  show ?case
  proof (cases "i < length (references (heap w ! this))")
    case False
    then show ?thesis using "4.prems" by simp
  next
    case True
    let ?x = "references (heap w ! this) ! i"
    have xr: "?x < length (heap w)" using analysed_ref "4.prems"(1,2) True by blast
    obtain r1 w1 where g: "getReferenceCount n env w ?x symbol = Some (r1, w1)"
      using "4.prems"(3) True by (cases "getReferenceCount n env w ?x symbol") auto
    have w1: "w1 = w" using "4.IH"(1)[OF True "4.prems"(1) xr g] by simp
    have g': "getReferenceCount n env w ?x symbol = Some (r1, w)" using g w1 by simp
    have l: "referencesLoop n env w this symbol (Suc i) (result + r1) = Some (r, w')"
      using "4.prems"(3) True g w1 by simp
    have ih: "w' = w \<and> result + r1 \<le> r
       \<and> (\<forall>j < length (references (heap w ! this)). Suc i \<le> j \<longrightarrow> (\<exists>n' r'.
             getReferenceCount n' env w (references (heap w ! this) ! j) symbol = Some (r', w)
             \<and> result + r1 + r' \<le> r))"
      using "4.IH"(2)[OF True g' refl "4.prems"(1) "4.prems"(2)] w1 l
      by simp
    show ?thesis
    proof (intro conjI allI impI)
      show "w' = w" using ih by simp
      show "result \<le> r" using ih by simp
    next
      fix j assume j: "j < length (references (heap w ! this))" and ij: "i \<le> j"
      show "\<exists>n' r'. getReferenceCount n' env w (references (heap w ! this) ! j) symbol = Some (r', w)
             \<and> result + r' \<le> r"
      proof (cases "j = i")
        case True
        then show ?thesis using g w1 ih by auto
      next
        case False
        then have "Suc i \<le> j" using ij by simp
        then obtain n' r' where "getReferenceCount n' env w (references (heap w ! this) ! j) symbol = Some (r', w)"
          "result + r1 + r' \<le> r" using ih j by blast
        then show ?thesis by (intro exI[of _ n'] exI[of _ r']) simp
      qed
    qed
  qed
qed


lemma fuel_mono:
  shows "getReferenceCount n env w c s = Some x \<Longrightarrow> n \<le> m \<Longrightarrow> getReferenceCount m env w c s = Some x"
    and "referencesLoop n env w c s i acc = Some x \<Longrightarrow> n \<le> m \<Longrightarrow> referencesLoop m env w c s i acc = Some x"
proof (induction n env w c s and n env w c s i acc arbitrary: m x and m x
        rule: getReferenceCount_referencesLoop.induct)
  case (1 env w this symbol)
  then show ?case by simp
next
  case (2 n env w this symbol)
  obtain m' where m: "m = Suc m'" "n \<le> m'" using "2.prems"(2) by (cases m) simp_all
  have "referencesLoop n env (runSemanticAnalysisIfNeeded env w this) this symbol 0
          (tableReferenceCount env (symbolTable (heap (runSemanticAnalysisIfNeeded env w this) ! this)) symbol) = Some x"
    using "2.prems"(1) by (simp add: Let_def)
  from "2.IH"[OF refl this m(2)] show ?case using m by (simp add: Let_def)
next
  case (3 env w this symbol i result)
  then show ?case by simp
next
  case (4 n env w this symbol i result)
  obtain m' where m: "m = Suc m'" "n \<le> m'" using "4.prems"(2) by (cases m) simp_all
  show ?case
  proof (cases "i < length (references (heap w ! this))")
    case False
    then show ?thesis using "4.prems"(1) m by simp
  next
    case True
    let ?x = "references (heap w ! this) ! i"
    obtain r1 w1 where g: "getReferenceCount n env w ?x symbol = Some (r1, w1)"
      using "4.prems"(1) True by (cases "getReferenceCount n env w ?x symbol") auto
    have l: "referencesLoop n env w1 this symbol (Suc i) (result + r1) = Some x"
      using "4.prems"(1) True g by simp
    have g': "getReferenceCount m' env w ?x symbol = Some (r1, w1)"
      using "4.IH"(1)[OF True g m(2)] .
    have l': "referencesLoop m' env w1 this symbol (Suc i) (result + r1) = Some x"
      using "4.IH"(2)[OF True g refl l m(2)] .
    show ?thesis using m True g' l' by simp
  qed
qed

lemma referencesLoop_returns:
  assumes each: "\<forall>j < length (references (heap w ! c)).
                   \<exists>n r. getReferenceCount n env w (references (heap w ! c) ! j) s = Some (r, w)"
  shows "\<exists>n r. referencesLoop n env w c s i acc = Some (r, w)"
proof (induction "length (references (heap w ! c)) - i" arbitrary: i acc)
  case 0
  then have "referencesLoop (Suc 0) env w c s i acc = Some (acc, w)" by simp
  then show ?case by blast
next
  case (Suc k)
  then have i: "i < length (references (heap w ! c))" by simp
  obtain n1 r1 where g: "getReferenceCount n1 env w (references (heap w ! c) ! i) s = Some (r1, w)"
    using each i by blast
  have "k = length (references (heap w ! c)) - Suc i" using Suc.hyps(2) by simp
  from Suc.hyps(1)[OF this] obtain n2 r2 where
    l: "referencesLoop n2 env w c s (Suc i) (acc + r1) = Some (r2, w)" by blast
  have g': "getReferenceCount (max n1 n2) env w (references (heap w ! c) ! i) s = Some (r1, w)"
    using fuel_mono(1)[OF g] by simp
  have l': "referencesLoop (max n1 n2) env w c s (Suc i) (acc + r1) = Some (r2, w)"
    using fuel_mono(2)[OF l] by simp
  have "referencesLoop (Suc (max n1 n2)) env w c s i acc = Some (r2, w)"
    using i g' l' by simp
  then show ?case by blast
qed

lemma getReferenceCount_returns:
  assumes an: "analysed (heap w)" and ac: "acyclic_mesh (heap w) rank"
  shows "c < length (heap w) \<Longrightarrow> \<exists>n r. getReferenceCount n env w c s = Some (r, w)"
proof (induction "rank c" arbitrary: c rule: less_induct)
  case less
  have "\<forall>j < length (references (heap w ! c)).
          \<exists>n r. getReferenceCount n env w (references (heap w ! c) ! j) s = Some (r, w)"
  proof (intro allI impI)
    fix j assume j: "j < length (references (heap w ! c))"
    then have m: "references (heap w ! c) ! j \<in> set (references (heap w ! c))" by simp
    have "rank (references (heap w ! c) ! j) < rank c"
      and "references (heap w ! c) ! j < length (heap w)"
      using ac less.prems m by (auto simp: acyclic_mesh_def)
    then show "\<exists>n r. getReferenceCount n env w (references (heap w ! c) ! j) s = Some (r, w)"
      using less.hyps by blast
  qed
  then obtain n r where
    "referencesLoop n env w c s 0 (tableReferenceCount env (symbolTable (heap w ! c)) s) = Some (r, w)"
    using referencesLoop_returns by blast
  then have "getReferenceCount (Suc n) env w c s = Some (r, w)"
    using analysed_run[OF an less.prems] by (simp add: Let_def)
  then show ?case by blast
qed

lemma getReferenceCount_includes:
  assumes an: "analysed (heap w)" and C: "C < length (heap w)"
    and BC: "B \<in> set (getReferences (heap w) C)" and AB: "A \<in> set (getReferences (heap w) B)"
    and g: "getReferenceCount n env w C s = Some (r, w')"
  shows "w' = w \<and>
         tableReferenceCount env (symbolTable (heap w ! C)) s
         + tableReferenceCount env (symbolTable (heap w ! B)) s
         + tableReferenceCount env (symbolTable (heap w ! A)) s \<le> r"
proof -
  have B: "B < length (heap w)" using an C BC by (auto simp: analysed_def getReferences_def)
  have A: "A < length (heap w)" using an B AB by (auto simp: analysed_def getReferences_def)
  obtain j where j: "j < length (references (heap w ! C))" "references (heap w ! C) ! j = B"
    using BC by (auto simp: getReferences_def in_set_conv_nth)
  obtain i where i: "i < length (references (heap w ! B))" "references (heap w ! B) ! i = A"
    using AB by (auto simp: getReferences_def in_set_conv_nth)
  from count_facts(1)[OF an C g] j obtain nB rB where
    w: "w' = w" and gB: "getReferenceCount nB env w B s = Some (rB, w)"
    and rB: "tableReferenceCount env (symbolTable (heap w ! C)) s + rB \<le> r" by blast
  from count_facts(1)[OF an B gB] i obtain nA rA where
    gA: "getReferenceCount nA env w A s = Some (rA, w)"
    and rA: "tableReferenceCount env (symbolTable (heap w ! B)) s + rA \<le> rB" by blast
  from count_facts(1)[OF an A gA] have "tableReferenceCount env (symbolTable (heap w ! A)) s \<le> rA"
    by simp
  then show ?thesis using w rB rA by simp
qed


lemma referencesLoop_visits:
  "referencesLoop n env w c s i acc = Some (r, w') \<Longrightarrow>
   \<exists>steps. visits env s c w i steps w' \<and> r = acc + sum_list (map fst steps)"
proof (induction n arbitrary: w i acc)
  case 0
  then show ?case by simp
next
  case (Suc n)
  show ?case
  proof (cases "i < length (references (heap w ! c))")
    case False
    then have "r = acc" "w' = w" using Suc.prems by simp_all
    then have "visits env s c w i [] w' \<and> r = acc + sum_list (map fst [])" using False by simp
    then show ?thesis by blast
  next
    case True
    let ?x = "references (heap w ! c) ! i"
    obtain r1 w1 where g: "getReferenceCount n env w ?x s = Some (r1, w1)"
      using Suc.prems True by (cases "getReferenceCount n env w ?x s") auto
    have "referencesLoop n env w1 c s (Suc i) (acc + r1) = Some (r, w')"
      using Suc.prems True g by simp
    from Suc.IH[OF this] obtain steps where
      st: "visits env s c w1 (Suc i) steps w'" "r = acc + r1 + sum_list (map fst steps)" by blast
    have "visits env s c w i ((r1, w1) # steps) w'" using True g st(1) by auto
    moreover have "r = acc + sum_list (map fst ((r1, w1) # steps))" using st(2) by simp
    ultimately show ?thesis by blast
  qed
qed

lemma getReferenceCount_sum:
  assumes "getReferenceCount n env w c s = Some (r, w')"
  shows "\<exists>steps. visits env s c (runSemanticAnalysisIfNeeded env w c) 0 steps w'
           \<and> r = tableReferenceCount env
                    (symbolTable (heap (runSemanticAnalysisIfNeeded env w c) ! c)) s
                  + sum_list (map fst steps)"
proof -
  obtain k where n: "n = Suc k" using assms by (cases n) simp_all
  have "referencesLoop k env (runSemanticAnalysisIfNeeded env w c) c s 0
          (tableReferenceCount env (symbolTable (heap (runSemanticAnalysisIfNeeded env w c) ! c)) s)
        = Some (r, w')"
    using assms n by (simp add: Let_def)
  from referencesLoop_visits[OF this] show ?thesis .
qed

lemma visits_analysed:
  "analysed (heap w) \<Longrightarrow> c < length (heap w) \<Longrightarrow> visits env s c w i steps w' \<Longrightarrow>
   w' = w \<and> length steps = length (references (heap w ! c)) - i
   \<and> (\<forall>j < length steps. \<exists>n. getReferenceCount n env w (references (heap w ! c) ! (i + j)) s
                               = Some (fst (steps ! j), w))"
proof (induction steps arbitrary: i)
  case Nil
  then show ?case by simp
next
  case (Cons st steps)
  obtain r1 w1 where st: "st = (r1, w1)" by (cases st)
  have i: "i < length (references (heap w ! c))" using Cons.prems(3) st by simp
  obtain n where g: "getReferenceCount n env w (references (heap w ! c) ! i) s = Some (r1, w1)"
    using Cons.prems(3) st by auto
  have xr: "references (heap w ! c) ! i < length (heap w)"
    using analysed_ref Cons.prems(1,2) i by blast
  have w1: "w1 = w" using count_facts(1)[OF Cons.prems(1) xr g] by simp
  have v: "visits env s c w (Suc i) steps w'" using Cons.prems(3) st w1 by simp
  note ih = Cons.IH[OF Cons.prems(1,2) v]
  show ?case
  proof (intro conjI allI impI)
    show "w' = w" using ih by simp
    show "length (st # steps) = length (references (heap w ! c)) - i" using ih i by simp
  next
    fix j assume j: "j < length (st # steps)"
    show "\<exists>n. getReferenceCount n env w (references (heap w ! c) ! (i + j)) s
                               = Some (fst ((st # steps) ! j), w)"
    proof (cases j)
      case 0
      then show ?thesis using g w1 st by auto
    next
      case (Suc j')
      then have "j' < length steps" using j by simp
      then obtain n' where "getReferenceCount n' env w (references (heap w ! c) ! (Suc i + j')) s
                               = Some (fst (steps ! j'), w)" using ih by blast
      then show ?thesis using Suc by auto
    qed
  qed
qed

lemma getReferenceCount_equation:
  assumes an: "analysed (heap w)" and c: "c < length (heap w)"
    and g: "getReferenceCount n env w c s = Some (r, w')"
  shows "w' = w \<and> (\<exists>rs. length rs = length (references (heap w ! c))
          \<and> (\<forall>j < length rs. \<exists>k. getReferenceCount k env w (references (heap w ! c) ! j) s
                                     = Some (rs ! j, w))
          \<and> r = tableReferenceCount env (symbolTable (heap w ! c)) s + sum_list rs)"
proof -
  have run: "runSemanticAnalysisIfNeeded env w c = w" using an c by (rule analysed_run)
  from getReferenceCount_sum[OF g] obtain steps where
    v: "visits env s c w 0 steps w'"
    and r: "r = tableReferenceCount env (symbolTable (heap w ! c)) s + sum_list (map fst steps)"
    using run by auto
  from visits_analysed[OF an c v] have f: "w' = w"
    "length steps = length (references (heap w ! c))"
    "\<forall>j < length steps. \<exists>n. getReferenceCount n env w (references (heap w ! c) ! j) s
                               = Some (fst (steps ! j), w)" by simp_all
  have "length (map fst steps) = length (references (heap w ! c))
     \<and> (\<forall>j < length (map fst steps). \<exists>k. getReferenceCount k env w (references (heap w ! c) ! j) s
                                     = Some (map fst steps ! j, w))
     \<and> r = tableReferenceCount env (symbolTable (heap w ! c)) s + sum_list (map fst steps)"
    using f r by simp
  then show ?thesis using f(1) by blast
qed

lemma getReferenceCount_unique:
  "getReferenceCount n env w c s = Some x \<Longrightarrow> getReferenceCount m env w c s = Some y \<Longrightarrow> x = y"
  using fuel_mono(1)[of n env w c s x "max n m"] fuel_mono(1)[of m env w c s y "max n m"]
  by simp

lemma getReferenceCount_alone:
  assumes "analysed (heap w)" "A < length (heap w)" "getReferences (heap w) A = []"
    "getReferenceCount n env w A s = Some (r, w')"
  shows "r = tableReferenceCount env (symbolTable (heap w ! A)) s"
  using getReferenceCount_equation[OF assms(1,2,4)] assms(3) by (auto simp: getReferences_def)

lemma getReferenceCount_equation_refs:
  assumes "analysed (heap w)" "c < length (heap w)"
    "getReferenceCount n env w c s = Some (r, w')"
  shows "w' = w \<and> (\<exists>rs. length rs = length (getReferences (heap w) c)
          \<and> (\<forall>j < length rs. \<exists>k. getReferenceCount k env w (getReferences (heap w) c ! j) s
                                     = Some (rs ! j, w))
          \<and> r = tableReferenceCount env (symbolTable (heap w ! c)) s + sum_list rs)"
  using getReferenceCount_equation[OF assms] by (simp add: getReferences_def)

text \<open>
  Claim C1, in the direction the code has. The number \<^verbatim>\<open>getReferenceCount\<close> returns is the
  count of the unit's own table, after its analysis has run if it was pending, plus the sum
  of the numbers that \<^verbatim>\<open>getReferenceCount\<close> returns for the units of its \<^verbatim>\<open>references\<close> list in
  turn, the units that reference it; that number does not depend on the iterations
  allowed. With no analysis pending the heap stays as it is. So when A references B and B
  references C, the number returned by C includes what the tables of C, B and A count;
  and the number returned by a unit that no unit references is the count of its own
  table, whatever the tables of the units it references count. On a mesh without a cycle
  the call returns.
\<close>

theorem getReferenceCount_includes_referencers:
  "(getReferenceCount n env w c s = Some (r, w') \<longrightarrow>
      (\<exists>steps. visits env s c (runSemanticAnalysisIfNeeded env w c) 0 steps w'
         \<and> r = tableReferenceCount env
                  (symbolTable (heap (runSemanticAnalysisIfNeeded env w c) ! c)) s
                + sum_list (map fst steps)))
   \<and> (getReferenceCount n env w c s = Some x \<and> getReferenceCount m env w c s = Some y \<longrightarrow>
        x = y)
   \<and> (analysed (heap w) \<and> c < length (heap w)
        \<and> getReferenceCount n env w c s = Some (r, w') \<longrightarrow>
        w' = w
        \<and> (\<exists>rs. length rs = length (getReferences (heap w) c)
             \<and> (\<forall>j < length rs. \<exists>k. getReferenceCount k env w (getReferences (heap w) c ! j) s
                                        = Some (rs ! j, w))
             \<and> r = tableReferenceCount env (symbolTable (heap w ! c)) s + sum_list rs))
   \<and> (analysed (heap w) \<and> C < length (heap w)
        \<and> B \<in> set (getReferences (heap w) C) \<and> A \<in> set (getReferences (heap w) B)
        \<and> getReferenceCount nC env w C s = Some (rC, wC) \<longrightarrow>
        tableReferenceCount env (symbolTable (heap w ! C)) s
          + tableReferenceCount env (symbolTable (heap w ! B)) s
          + tableReferenceCount env (symbolTable (heap w ! A)) s \<le> rC)
   \<and> (analysed (heap w) \<and> A < length (heap w) \<and> getReferences (heap w) A = []
        \<and> getReferenceCount nA env w A s = Some (rA, wA) \<longrightarrow>
        rA = tableReferenceCount env (symbolTable (heap w ! A)) s)
   \<and> (analysed (heap w) \<and> acyclic_mesh (heap w) rank \<and> c < length (heap w) \<longrightarrow>
        (\<exists>k r. getReferenceCount k env w c s = Some (r, w)))"
  using getReferenceCount_sum[of n env w c s r w']
    getReferenceCount_unique[of n env w c s x m y]
    getReferenceCount_equation_refs[of w c n env s r w']
    getReferenceCount_includes[of w C B A nC env s rC wC]
    getReferenceCount_alone[of w A nA env s rA wA]
    getReferenceCount_returns[of w rank c env s]
  by blast

lemma ex_chain_analysed: "analysed ex_chain"
  by (simp add: analysed_def ex_chain_def ex_unit_def nth_Cons' )

lemma ex_chain_acyclic: "acyclic_mesh ex_chain (\<lambda>c. c)"
  by (simp add: acyclic_mesh_def ex_chain_def ex_unit_def nth_Cons')

lemma ex_chain_counts:
  "getReferenceCount 6 ex_env ex_world 2 ''foo'' = Some (2, ex_world)"
  "getReferenceCount 4 ex_env ex_world 1 ''foo'' = Some (1, ex_world)"
  "getReferenceCount 2 ex_env ex_world 0 ''foo'' = Some (0, ex_world)"
  by (simp_all add: ex_world_def ex_chain_def ex_unit_def ex_env_def ex_foo_def ex_symbol_def
      runSemanticAnalysisIfNeeded_def eval_nat_numeral)

theorem getReferenceCount_includes_referencers_witness:
  "analysed (heap ex_world) \<and> acyclic_mesh (heap ex_world) (\<lambda>c. c) \<and> 2 < length (heap ex_world)
   \<and> 1 \<in> set (getReferences (heap ex_world) 2) \<and> 0 \<in> set (getReferences (heap ex_world) 1)
   \<and> getReferences (heap ex_world) 0 = []
   \<and> getReferenceCount 6 ex_env ex_world 2 ''foo'' = Some (2, ex_world)
   \<and> getReferenceCount 2 ex_env ex_world 0 ''foo'' = Some (0, ex_world)
   \<and> (\<exists>rs. length rs = length (getReferences (heap ex_world) 2)
        \<and> 2 = tableReferenceCount ex_env (symbolTable (heap ex_world ! 2)) ''foo'' + sum_list rs)
   \<and> tableReferenceCount ex_env (symbolTable (heap ex_world ! 2)) ''foo''
     + tableReferenceCount ex_env (symbolTable (heap ex_world ! 1)) ''foo''
     + tableReferenceCount ex_env (symbolTable (heap ex_world ! 0)) ''foo'' \<le> 2
   \<and> 0 = tableReferenceCount ex_env (symbolTable (heap ex_world ! 0)) ''foo''
   \<and> (\<exists>k r. getReferenceCount k ex_env ex_world 2 ''foo'' = Some (r, ex_world))"
proof -
  have an: "analysed (heap ex_world)" using ex_chain_analysed by (simp add: ex_world_def)
  have ac: "acyclic_mesh (heap ex_world) (\<lambda>c. c)" using ex_chain_acyclic by (simp add: ex_world_def)
  have l: "2 < length (heap ex_world)" "0 < length (heap ex_world)"
    by (simp_all add: ex_world_def ex_chain_def)
  have e: "1 \<in> set (getReferences (heap ex_world) 2)" "0 \<in> set (getReferences (heap ex_world) 1)"
    "getReferences (heap ex_world) 0 = []"
    by (simp_all add: ex_world_def ex_chain_def ex_unit_def getReferences_def)
  note g = ex_chain_counts(1) ex_chain_counts(3)
  note t = getReferenceCount_includes_referencers
         [of 6 ex_env ex_world 2 "''foo''" 2 ex_world "(2, ex_world)" 6 "(2, ex_world)"
             2 1 0 6 2 ex_world 2 0 ex_world "\<lambda>c. c"]
  have a1: "\<exists>rs. length rs = length (getReferences (heap ex_world) 2)
        \<and> 2 = tableReferenceCount ex_env (symbolTable (heap ex_world ! 2)) ''foo'' + sum_list rs"
    using t an l g by blast
  have a2: "tableReferenceCount ex_env (symbolTable (heap ex_world ! 2)) ''foo''
     + tableReferenceCount ex_env (symbolTable (heap ex_world ! 1)) ''foo''
     + tableReferenceCount ex_env (symbolTable (heap ex_world ! 0)) ''foo'' \<le> 2"
    using t an l e g by blast
  have a3: "0 = tableReferenceCount ex_env (symbolTable (heap ex_world ! 0)) ''foo''"
    using t an l e g by blast
  have a4: "\<exists>k r. getReferenceCount k ex_env ex_world 2 ''foo'' = Some (r, ex_world)"
    using t an ac l by blast
  show ?thesis using an ac l(1) e g a1 a2 a3 a4 by blast
qed

text \<open>
  The claim as stated fails: unit 0 references unit 1, unit 1 references unit 2, the table
  of unit 1 counts one use of \<^verbatim>\<open>foo\<close>, and the number returned by unit 0 is 0.
\<close>

theorem getReferenceCount_direction_counterexample:
  "0 \<in> set (getReferences (heap ex_world) 1) \<and> 1 \<in> set (getReferences (heap ex_world) 2)
   \<and> tableReferenceCount ex_env (symbolTable (heap ex_world ! 1)) ''foo'' = 1
   \<and> getReferenceCount 2 ex_env ex_world 0 ''foo'' = Some (0, ex_world)"
  by (simp add: ex_world_def ex_chain_def ex_unit_def ex_env_def ex_foo_def ex_symbol_def
      getReferences_def runSemanticAnalysisIfNeeded_def eval_nat_numeral)

section \<open>Properties of resolution after a reference\<close>

lemma find_name_None: "find (\<lambda>s. sym_name s = symbolName) xs = None \<longleftrightarrow> symbolName \<notin> set (map sym_name xs)"
  by (auto simp: find_None_iff)

lemma resolveLoop_finds:
  "\<exists>t \<in> set pending. t \<notin> set visited \<and> declares st h t symbolName \<Longrightarrow>
   resolveLoop st h visited pending symbolName \<noteq> None"
proof (induction st h visited pending symbolName rule: resolveLoop.induct)
  case (1 st h visited symbolName)
  then show ?case by simp
next
  case (2 st h visited t pending symbolName)
  then obtain u where u: "u \<in> set (t # pending)" "u \<notin> set visited" "declares st h u symbolName"
    by blast
  show ?case
  proof (cases "t \<in> set visited")
    case True
    then have "u \<in> set pending" using u by auto
    then show ?thesis using 2(1)[OF True] u True by auto
  next
    case False
    show ?thesis
    proof (cases "tableOf st h t")
      case None
      then have "u \<noteq> t" using u(3) by (auto simp: declares_def)
      then have "u \<in> set pending" using u by auto
      then show ?thesis using 2(2)[OF False None] u False None by auto
    next
      case (Some tbl)
      show ?thesis
      proof (cases "find (\<lambda>s. sym_name s = symbolName) (symbols tbl)")
        case None
        then have "\<not> declares st h t symbolName" using Some by (simp add: declares_def find_name_None)
        then have "u \<noteq> t" using u(3) by auto
        then have "u \<in> set (dependencies tbl @ pending)" "u \<notin> set (t # visited)"
          using u by auto
        then show ?thesis using 2(3)[OF False Some None] u(3) False Some None by auto
      next
        case (Some s)
        then show ?thesis using False \<open>tableOf st h t = Some tbl\<close> by simp
      qed
    qed
  qed
qed

lemma addAsReferenceTo_added:
  assumes "A < length h" "B < length h" "addAsReferenceTo n h A B True = Some h'"
    "pipelineLoop n h A [B] = Some False"
  shows "length h' = length h
     \<and> dependencies (symbolTable (h' ! A)) = dependencies (addDependencies (symbolTable (h ! A)) (TableOf B))
     \<and> (\<forall>c < length h. symbols (symbolTable (h' ! c)) = symbols (symbolTable (h ! c)))
     \<and> (A \<noteq> B \<longrightarrow> symbolTable (h' ! B) = symbolTable (h ! B))"
  using assms
  by (auto simp: addAsReferenceTo_def Let_def nth_list_update addDependencies_def)

lemma addAsReferenceTo_resolves:
  assumes A: "A < length h" and B: "B < length h"
    and r: "addAsReferenceTo n h A B True = Some h'"
    and g: "pipelineLoop n h A [B] = Some False"
    and d: "symbolName \<in> set (map sym_name (symbols (symbolTable (h ! B))))"
  shows "TableOf B \<in> set (dependencies (symbolTable (h' ! A)))
     \<and> (A \<noteq> B \<longrightarrow> dependencies (symbolTable (h' ! B)) = dependencies (symbolTable (h ! B)))
     \<and> resolveSymbol st h' A symbolName \<noteq> None"
proof -
  note f = addAsReferenceTo_added[OF A B r g]
  have dep: "TableOf B \<in> set (dependencies (symbolTable (h' ! A)))"
    using f by (simp add: addDependencies_def)
  have tA: "tableOf st h' (TableOf A) = Some (symbolTable (h' ! A))"
    using f A by (simp add: tableOf_def)
  have dB: "declares st h' (TableOf B) symbolName"
    using f B d by (simp add: declares_def tableOf_def)
  have "resolveLoop st h' [] [TableOf A] symbolName \<noteq> None"
  proof (cases "find (\<lambda>s. sym_name s = symbolName) (symbols (symbolTable (h' ! A)))")
    case (Some s)
    then show ?thesis using tA by simp
  next
    case None
    then have "\<not> declares st h' (TableOf A) symbolName" using tA by (simp add: declares_def find_name_None)
    then have "TableOf B \<noteq> TableOf A" using dB by auto
    then have "\<exists>t \<in> set (dependencies (symbolTable (h' ! A)) @ []). t \<notin> set [TableOf A] \<and> declares st h' t symbolName"
      using dep dB by auto
    from resolveLoop_finds[OF this] show ?thesis using tA None by simp
  qed
  then show ?thesis using dep f by (simp add: resolveSymbol_def resolveSync_def)
qed


text \<open>
  Claim C3, as the code has it. When the guard of \<^verbatim>\<open>A.addAsReferenceTo(B)\<close> does not find A
  registered, the call with the symbols merged returns and has made B's table a
  dependency of A's table (\<^verbatim>\<open>this.symbolTable.addDependencies(context.symbolTable)\<close>); the
  dependencies of B's table are as before. Then every top-level name declared in B
  resolves from A.
\<close>

theorem addAsReferenceTo_makes_symbols_visible:
  "A < length h \<and> B < length h \<and> pipelineLoop n h A [B] = Some False
   \<and> symbolName \<in> set (map sym_name (symbols (symbolTable (h ! B))))
   \<longrightarrow>
   (\<exists>h'. addAsReferenceTo n h A B True = Some h'
      \<and> TableOf B \<in> set (dependencies (symbolTable (h' ! A)))
      \<and> (A \<noteq> B \<longrightarrow> dependencies (symbolTable (h' ! B)) = dependencies (symbolTable (h ! B)))
      \<and> resolveSymbol st h' A symbolName \<noteq> None)"
proof
  assume a: "A < length h \<and> B < length h \<and> pipelineLoop n h A [B] = Some False
   \<and> symbolName \<in> set (map sym_name (symbols (symbolTable (h ! B))))"
  then obtain h' where r: "addAsReferenceTo n h A B True = Some h'"
    by (auto simp: addAsReferenceTo_def Let_def)
  from addAsReferenceTo_resolves[of A h B n h' symbolName st] a r
  show "\<exists>h'. addAsReferenceTo n h A B True = Some h'
      \<and> TableOf B \<in> set (dependencies (symbolTable (h' ! A)))
      \<and> (A \<noteq> B \<longrightarrow> dependencies (symbolTable (h' ! B)) = dependencies (symbolTable (h ! B)))
      \<and> resolveSymbol st h' A symbolName \<noteq> None"
    by blast
qed

theorem addAsReferenceTo_makes_symbols_visible_witness:
  "0 < length ex_units \<and> 1 < length ex_units \<and> pipelineLoop 2 ex_units 0 [1] = Some False
   \<and> ''foo'' \<in> set (map sym_name (symbols (symbolTable (ex_units ! 1))))
   \<and> (\<exists>h'. addAsReferenceTo 2 ex_units 0 1 True = Some h'
        \<and> TableOf 1 \<in> set (dependencies (symbolTable (h' ! 0)))
        \<and> dependencies (symbolTable (h' ! 1)) = dependencies (symbolTable (ex_units ! 1))
        \<and> resolveSymbol ex_statics h' 0 ''foo'' \<noteq> None)"
proof -
  have l: "0 < length ex_units" "1 < length ex_units" by (simp_all add: ex_units_def)
  have g: "pipelineLoop 2 ex_units 0 [1] = Some False"
    by (simp add: ex_units_def ex_unit_def numeral_2_eq_2)
  have d: "''foo'' \<in> set (map sym_name (symbols (symbolTable (ex_units ! 1))))"
    by (simp add: ex_units_def ex_unit_def ex_foo_def ex_symbol_def)
  from addAsReferenceTo_makes_symbols_visible [of 0 ex_units 1 2 "''foo''" ex_statics] l g d
  show ?thesis by simp
qed

text \<open>
  The claim as stated fails twice. The registration goes the other way: after unit 0
  called \<^verbatim>\<open>addAsReferenceTo\<close> on unit 1, unit 1's table does not depend on unit 0's. And
  when unit 0 is already registered (here by a call without merging), the call with
  merging returns at the guard, and \<^verbatim>\<open>foo\<close>, declared in unit 1, does not resolve from
  unit 0.
\<close>

theorem addAsReferenceTo_dependency_counterexample:
  "addAsReferenceTo 2 ex_units 0 1 True = Some ex_ab
   \<and> TableOf 0 \<notin> set (dependencies (symbolTable (ex_ab ! 1)))
   \<and> addAsReferenceTo 2 ex_units 0 1 False = Some ex_edge
   \<and> addAsReferenceTo 2 ex_edge 0 1 True = Some ex_edge
   \<and> ''foo'' \<in> set (map sym_name (symbols (symbolTable (ex_edge ! 1))))
   \<and> resolveSymbol ex_statics ex_edge 0 ''foo'' = None"
  by (simp add: addAsReferenceTo_def ex_units_def ex_ab_def ex_edge_def ex_unit_def
      addDependencies_def numeral_2_eq_2 ex_foo_def ex_symbol_def resolveSymbol_def
      resolveSync_def tableOf_def)

section \<open>Properties of parsing and of the diagnostics\<close>






















section \<open>Properties of arrow evaluation\<close>

lemma events_addDiagnostic [simp]: "events (addDiagnostic w c d) = events w @ [DiagnosticAdded c d]"
  by (simp add: addDiagnostic_def)

lemma events_logEvent [simp]: "events (logEvent e w) = events w @ [e]"
  by (simp add: logEvent_def)

lemma length_addDiagnostic [simp]: "length (heap (addDiagnostic w c d)) = length (heap w)"
  by (simp add: addDiagnostic_def)

lemma evalCallOther_load_fails:
  assumes s: "sourceObject sv = StringValue f"
    and l: "\<forall>h. fst (loadLpc env (normalizeFilename env (filenameToAbsolutePath env f)) h) = None"
  shows "\<exists>w' arrow'. evalCallOther n env w stack arrow scope sv = Some (Undefined, w', stack, arrow')
          \<and> objContext arrow' = None
          \<and> DiagnosticAdded (owner arrow)
               \<lparr>message = ''could not load source for: '' @ f, range = arrow_range arrow,
                type = Warning\<rparr> \<in> set (newEvents w w')
          \<and> FramePush \<notin> set (newEvents w w')
          \<and> (owner arrow < length (heap w') \<longrightarrow>
               \<lparr>message = ''could not load source for: '' @ f, range = arrow_range arrow,
                type = Warning\<rparr> \<in> set (diagnostics (heap w' ! owner arrow)))"
proof -
  define w1 where "w1 = (case target arrow of
                  None \<Rightarrow>
                    addDiagnostic w (owner arrow)
                      \<lparr>message = ''Missing method name'', range = arrow_range arrow,
                       type = Error\<rparr>
                | Some t \<Rightarrow>
                    if methodInvocation arrow = None
                    then addDiagnostic w (owner arrow)
                           \<lparr>message = ''Missing ()'', range = target_range t, type = Error\<rparr>
                    else w)"
  have ev1: "\<exists>es. events w1 = events w @ es \<and> FramePush \<notin> set es"
    by (auto simp: w1_def split: option.splits)
  obtain h where h: "loadLpc env (normalizeFilename env (filenameToAbsolutePath env f)) (heap w1) = (None, h)"
    using l[rule_format, of "heap w1"]
    by (cases "loadLpc env (normalizeFilename env (filenameToAbsolutePath env f)) (heap w1)") simp
  define d where "d = \<lparr>message = ''could not load source for: '' @ f, range = arrow_range arrow,
                type = Warning\<rparr>"
  define w2 where "w2 = addDiagnostic \<lparr>heap = h, events = events w1 @ [ObjectLoad f]\<rparr> (owner arrow) d"
  have lo: "loadObject n env w1 arrow f = Some (None, w2)"
    using h by (simp add: loadObject_def w2_def d_def)
  obtain r w' st a where c: "callFunction env w2 stack (arrow\<lparr>objContext := None\<rparr>) = (r, w', st, a)"
    by (cases "callFunction env w2 stack (arrow\<lparr>objContext := None\<rparr>)") auto
  have cf: "r = Undefined \<and> st = stack \<and> objContext a = None
      \<and> (\<exists>d'. w' = addDiagnostic w2 (owner arrow) d')"
    using c by (auto simp: callFunction_def Let_def)
  then obtain d' where w': "w' = addDiagnostic w2 (owner arrow) d'" by blast
  have e: "evalCallOther n env w stack arrow scope sv = Some (Undefined, w', stack, a)"
    using s lo c cf by (simp add: evalCallOther_def w1_def[symmetric])
  obtain es where es: "events w1 = events w @ es" "FramePush \<notin> set es" using ev1 by blast
  have ne: "newEvents w w' = es @ [ObjectLoad f, DiagnosticAdded (owner arrow) d,
                                   DiagnosticAdded (owner arrow) d']"
    using es w' by (simp add: newEvents_def w2_def)
  have hp: "owner arrow < length (heap w') \<longrightarrow> d \<in> set (diagnostics (heap w' ! owner arrow))"
    by (auto simp: w' w2_def addDiagnostic_def)
  show ?thesis using e cf ne es hp unfolding d_def by auto
qed


lemma eval_struct:
  assumes "isStruct (source_eval arrow)"
  shows "\<exists>w'. eval n env w stack arrow scope
                = Some (scope, w', stack, arrow\<lparr>arrowType := StructMember\<rparr>)
     \<and> newEvents w w' =
        (case target arrow of
           None \<Rightarrow> [DiagnosticAdded (owner arrow)
                      \<lparr>message = ''Missing struct access member name '',
                       range = arrow_range arrow, type = Error\<rparr>]
         | Some t \<Rightarrow>
             if methodInvocation arrow \<noteq> None
             then [DiagnosticAdded (owner arrow)
                     \<lparr>message = ''Cannot call methods on struct members'',
                      range = target_range t, type = Error\<rparr>]
             else [])
     \<and> (owner arrow < length (heap w) \<longrightarrow>
          diagnostics (heap w' ! owner arrow)
            = diagnostics (heap w ! owner arrow) @ diagnosticsOf (newEvents w w'))"
  using assms
  by (auto simp: eval_def evalStruct_def addDiagnostic_def newEvents_def Let_def
      split: option.splits)

text \<open>
  Claim C7, as the code has it. An arrow whose source value has the type named
  \<^verbatim>\<open>struct\<close> is classified as struct member access. The evaluation returns the scope and
  does nothing but add at most one error diagnostic to the owner: "Missing struct access
  member name " when there is no target; otherwise, when there is a method invocation,
  "Cannot call methods on struct members". It loads no object, looks up no function and
  pushes no frame.
\<close>

theorem eval_struct_member_access:
  "isStruct (source_eval arrow) \<longrightarrow>
   (\<exists>w'. eval n env w stack arrow scope
            = Some (scope, w', stack, arrow\<lparr>arrowType := StructMember\<rparr>)
     \<and> newEvents w w' =
        (case target arrow of
           None \<Rightarrow> [DiagnosticAdded (owner arrow)
                      \<lparr>message = ''Missing struct access member name '',
                       range = arrow_range arrow, type = Error\<rparr>]
         | Some t \<Rightarrow>
             if methodInvocation arrow \<noteq> None
             then [DiagnosticAdded (owner arrow)
                     \<lparr>message = ''Cannot call methods on struct members'',
                      range = target_range t, type = Error\<rparr>]
             else [])
     \<and> (owner arrow < length (heap w) \<longrightarrow>
          diagnostics (heap w' ! owner arrow)
            = diagnostics (heap w ! owner arrow) @ diagnosticsOf (newEvents w w')))"
  using eval_struct[of arrow n env w stack scope] by blast

theorem eval_struct_member_access_witness:
  "isStruct (source_eval ex_struct_call)
   \<and> target ex_struct_call = Some \<lparr>target_range = (3, 3), target_eval = Some ''foo''\<rparr>
   \<and> methodInvocation ex_struct_call \<noteq> None
   \<and> owner ex_struct_call < length (heap ex_world)
   \<and> (\<exists>w'. eval 0 ex_env ex_world [] ex_struct_call Undefined
              = Some (Undefined, w', [], ex_struct_call\<lparr>arrowType := StructMember\<rparr>)
        \<and> newEvents ex_world w' =
             [DiagnosticAdded (owner ex_struct_call)
                \<lparr>message = ''Cannot call methods on struct members'', range = (3, 3),
                 type = Error\<rparr>]
        \<and> diagnostics (heap w' ! owner ex_struct_call)
            = diagnostics (heap ex_world ! owner ex_struct_call)
              @ diagnosticsOf (newEvents ex_world w'))"
proof -
  have s: "isStruct (source_eval ex_struct_call)"
    by (simp add: isStruct_def ex_struct_call_def ex_struct_arrow_def ex_arrow_def)
  have t: "target ex_struct_call = Some \<lparr>target_range = (3, 3), target_eval = Some ''foo''\<rparr>"
    "methodInvocation ex_struct_call \<noteq> None"
    by (simp_all add: ex_struct_call_def ex_struct_arrow_def ex_arrow_def)
  have o: "owner ex_struct_call < length (heap ex_world)"
    by (simp add: ex_struct_call_def ex_struct_arrow_def ex_arrow_def ex_world_def ex_chain_def)
  from eval_struct_member_access [of ex_struct_call 0 ex_env ex_world "[]" Undefined] s t o
  show ?thesis by simp
qed

text \<open>
  The claim as stated fails for a call without target on a struct: the invocation is
  there, and the only diagnostic is the one for the missing member name.
\<close>

theorem eval_struct_invocation_counterexample:
  "isStruct (source_eval ex_struct_arrow) \<and> methodInvocation ex_struct_arrow \<noteq> None
   \<and> eval 0 ex_env ex_world [] ex_struct_arrow Undefined \<noteq> None
   \<and> map message (diagnosticsOf (events (fst (snd (the
        (eval 0 ex_env ex_world [] ex_struct_arrow Undefined))))))
       = [''Missing struct access member name '']"
  by (simp add: isStruct_def ex_struct_arrow_def ex_arrow_def eval_def evalStruct_def
      addDiagnostic_def ex_world_def)

lemma eval_callOther:
  "\<not> isStruct (source_eval arrow) \<Longrightarrow>
   eval n env w stack arrow scope
     = evalCallOther n env w stack (arrow\<lparr>arrowType := CallOther\<rparr>) scope (source_eval arrow)"
  by (simp add: eval_def)

lemma eval_load_fails:
  assumes "\<not> isStruct (source_eval arrow)" "sourceObject (source_eval arrow) = StringValue f"
    "\<forall>h. fst (loadLpc env (normalizeFilename env (filenameToAbsolutePath env f)) h) = None"
  shows "\<exists>w' arrow'. eval n env w stack arrow scope = Some (Undefined, w', stack, arrow')
      \<and> objContext arrow' = None
      \<and> DiagnosticAdded (owner arrow)
           \<lparr>message = ''could not load source for: '' @ f, range = arrow_range arrow,
            type = Warning\<rparr> \<in> set (newEvents w w')
      \<and> FramePush \<notin> set (newEvents w w')
      \<and> (owner arrow < length (heap w') \<longrightarrow>
           \<lparr>message = ''could not load source for: '' @ f, range = arrow_range arrow,
            type = Warning\<rparr> \<in> set (diagnostics (heap w' ! owner arrow)))"
  using evalCallOther_load_fails[OF assms(2,3), of n w stack "arrow\<lparr>arrowType := CallOther\<rparr>" scope]
    assms(1)
  by (simp add: eval_callOther)

lemma eval_absent_neither:
  assumes "\<not> isStruct (source_eval arrow)" and "target arrow = None"
    and "d0 = \<lparr>message = ''Missing method name'', range = arrow_range arrow, type = Error\<rparr>"
    and "h1 = heap (addDiagnostic w (owner arrow) d0)"
    and "fn = (if functionName arrow = None \<or> functionName arrow = Some []
                  \<or> functionName arrow = Some ''#fn'' then None else functionName arrow)"
    and "d2 = \<lparr>message = ''Function '' @ [CHR 0x27] @ (case fn of None \<Rightarrow> [] | Some g \<Rightarrow> g)
                           @ [CHR 0x27] @ '' may be undefined'',
               range = arrow_range arrow, type = Error\<rparr>"
  shows "((\<forall>f. sourceObject (source_eval arrow) \<noteq> StringValue f)
          \<and> (\<forall>c. sourceObject (source_eval arrow) \<noteq> ObjectReferenceInfo c) \<longrightarrow>
          eval n env w stack arrow scope
            = Some (Undefined,
                    \<lparr>heap = h1, events = events w @ [DiagnosticAdded (owner arrow) d0]\<rparr>,
                    stack, arrow\<lparr>arrowType := CallOther\<rparr>))"
  using assms
  by (cases "sourceObject (source_eval arrow)")
     (auto simp: eval_def evalCallOther_def addDiagnostic_def)

lemma eval_absent_reference:
  assumes "\<not> isStruct (source_eval arrow)" and "target arrow = None"
    and "d0 = \<lparr>message = ''Missing method name'', range = arrow_range arrow, type = Error\<rparr>"
    and "h1 = heap (addDiagnostic w (owner arrow) d0)"
    and "fn = (if functionName arrow = None \<or> functionName arrow = Some []
                  \<or> functionName arrow = Some ''#fn'' then None else functionName arrow)"
    and "d2 = \<lparr>message = ''Function '' @ [CHR 0x27] @ (case fn of None \<Rightarrow> [] | Some g \<Rightarrow> g)
                           @ [CHR 0x27] @ '' may be undefined'',
               range = arrow_range arrow, type = Error\<rparr>"
  shows "(\<forall>c. sourceObject (source_eval arrow) = ObjectReferenceInfo c \<longrightarrow>
          (getFunction env (symbolTable (h1 ! c)) fn = None \<longrightarrow>
             eval n env w stack arrow scope
               = Some (Undefined,
                       \<lparr>heap = heap (addDiagnostic \<lparr>heap = h1, events = []\<rparr> (owner arrow) d2),
                        events = events w @ [DiagnosticAdded (owner arrow) d0,
                                             FunctionLookup c fn,
                                             DiagnosticAdded (owner arrow) d2]\<rparr>,
                       stack,
                       arrow\<lparr>arrowType := CallOther, objectRef := Some c,
                             objContext := Some c, functionName := fn\<rparr>))
          \<and> (\<forall>funSym. getFunction env (symbolTable (h1 ! c)) fn = Some funSym \<longrightarrow>
             eval n env w stack arrow scope
               = Some (fst (evalFunction env funSym
                             (StackFrame (FunctionFrame funSym) [] []
                                (Some (StackFrame (TableFrame c) [] [] None)) # stack)
                             (methodInvocation arrow) h1),
                       \<lparr>heap = snd (evalFunction env funSym
                             (StackFrame (FunctionFrame funSym) [] []
                                (Some (StackFrame (TableFrame c) [] [] None)) # stack)
                             (methodInvocation arrow) h1),
                        events = events w @ [DiagnosticAdded (owner arrow) d0,
                                             FunctionLookup c fn, FramePush, FramePop]\<rparr>,
                       stack,
                       arrow\<lparr>arrowType := CallOther, objectRef := Some c,
                             objContext := Some c, functionName := fn\<rparr>)))"
  using assms
  by (auto simp: eval_def evalCallOther_def loadObject_def callFunction_def addDiagnostic_def
      logEvent_def mayBeUndefined_def Let_def split: prod.splits)

lemma eval_absent_load_fails:
  assumes "\<not> isStruct (source_eval arrow)" and "target arrow = None"
    and "d0 = \<lparr>message = ''Missing method name'', range = arrow_range arrow, type = Error\<rparr>"
    and "h1 = heap (addDiagnostic w (owner arrow) d0)"
    and "fn = (if functionName arrow = None \<or> functionName arrow = Some []
                  \<or> functionName arrow = Some ''#fn'' then None else functionName arrow)"
    and "d2 = \<lparr>message = ''Function '' @ [CHR 0x27] @ (case fn of None \<Rightarrow> [] | Some g \<Rightarrow> g)
                           @ [CHR 0x27] @ '' may be undefined'',
               range = arrow_range arrow, type = Error\<rparr>"
  shows "(\<forall>f h. sourceObject (source_eval arrow) = StringValue f
            \<and> loadLpc env (normalizeFilename env (filenameToAbsolutePath env f)) h1 = (None, h)
          \<longrightarrow>
          eval n env w stack arrow scope
            = Some (Undefined,
                    \<lparr>heap = heap (addDiagnostic
                              (addDiagnostic \<lparr>heap = h, events = []\<rparr> (owner arrow)
                                 \<lparr>message = ''could not load source for: '' @ f,
                                  range = arrow_range arrow, type = Warning\<rparr>)
                              (owner arrow) d2),
                     events = events w @ [DiagnosticAdded (owner arrow) d0, ObjectLoad f,
                                          DiagnosticAdded (owner arrow)
                                            \<lparr>message = ''could not load source for: '' @ f,
                                             range = arrow_range arrow, type = Warning\<rparr>,
                                          DiagnosticAdded (owner arrow) d2]\<rparr>,
                    stack,
                    arrow\<lparr>arrowType := CallOther, objContext := None, functionName := fn\<rparr>))"
  using assms
  by (auto simp: eval_def evalCallOther_def loadObject_def callFunction_def addDiagnostic_def
      logEvent_def mayBeUndefined_def Let_def split: prod.splits)

lemma eval_absent_loaded:
  assumes "\<not> isStruct (source_eval arrow)" and "target arrow = None"
    and "d0 = \<lparr>message = ''Missing method name'', range = arrow_range arrow, type = Error\<rparr>"
    and "h1 = heap (addDiagnostic w (owner arrow) d0)"
    and "fn = (if functionName arrow = None \<or> functionName arrow = Some []
                  \<or> functionName arrow = Some ''#fn'' then None else functionName arrow)"
    and "d2 = \<lparr>message = ''Function '' @ [CHR 0x27] @ (case fn of None \<Rightarrow> [] | Some g \<Rightarrow> g)
                           @ [CHR 0x27] @ '' may be undefined'',
               range = arrow_range arrow, type = Error\<rparr>"
  shows "(\<forall>f c h. sourceObject (source_eval arrow) = StringValue f
            \<and> loadLpc env (normalizeFilename env (filenameToAbsolutePath env f)) h1 = (Some c, h)
          \<longrightarrow>
          (addAsReferenceTo n h (owner arrow) c True = None \<longrightarrow>
             eval n env w stack arrow scope = None)
          \<and> (\<forall>h'. addAsReferenceTo n h (owner arrow) c True = Some h'
                 \<and> getFunction env (symbolTable (h' ! c)) fn = None \<longrightarrow>
             eval n env w stack arrow scope
               = Some (Undefined,
                       \<lparr>heap = heap (addDiagnostic \<lparr>heap = h', events = []\<rparr> (owner arrow) d2),
                        events = events w @ [DiagnosticAdded (owner arrow) d0, ObjectLoad f,
                                             FunctionLookup c fn,
                                             DiagnosticAdded (owner arrow) d2]\<rparr>,
                       stack,
                       arrow\<lparr>arrowType := CallOther, objContext := Some c,
                             functionName := fn\<rparr>))
          \<and> (\<forall>h' funSym. addAsReferenceTo n h (owner arrow) c True = Some h'
                 \<and> getFunction env (symbolTable (h' ! c)) fn = Some funSym \<longrightarrow>
             eval n env w stack arrow scope
               = Some (fst (evalFunction env funSym
                             (StackFrame (FunctionFrame funSym) [] []
                                (Some (StackFrame (TableFrame c) [] [] None)) # stack)
                             (methodInvocation arrow) h'),
                       \<lparr>heap = snd (evalFunction env funSym
                             (StackFrame (FunctionFrame funSym) [] []
                                (Some (StackFrame (TableFrame c) [] [] None)) # stack)
                             (methodInvocation arrow) h'),
                        events = events w @ [DiagnosticAdded (owner arrow) d0, ObjectLoad f,
                                             FunctionLookup c fn, FramePush, FramePop]\<rparr>,
                       stack,
                       arrow\<lparr>arrowType := CallOther, objContext := Some c,
                             functionName := fn\<rparr>)))"
  using assms
  by (auto simp: eval_def evalCallOther_def loadObject_def callFunction_def addDiagnostic_def
      logEvent_def mayBeUndefined_def Let_def split: prod.splits)

text \<open>
  Claim C2, as the code has it. A remote call without target adds the error "Missing
  method name" to the owner first, and adds it once. When the source value is neither a
  string nor an object reference, that is all: nothing is loaded, looked up or pushed and
  the result is \<^verbatim>\<open>undefined\<close>. When it is an object reference, the function is looked up in
  the table of that object. When it is a string, the object is loaded: when the load
  fails, a warning follows and nothing is looked up; when it succeeds and the registration
  of the mesh edge returns, the function is looked up in the table of the loaded unit.
  Where no function is found, and after a failed load, a second error "Function ... may
  be undefined" follows and the result is \<^verbatim>\<open>undefined\<close>; where one is found, a frame is
  pushed, the function evaluated and the frame popped. The function name is the one kept
  on the arrow, none if that is absent, empty or \<^verbatim>\<open>#fn\<close>.
\<close>

theorem eval_missing_method_name:
  assumes "\<not> isStruct (source_eval arrow)" and "target arrow = None"
    and "d0 = \<lparr>message = ''Missing method name'', range = arrow_range arrow, type = Error\<rparr>"
    and "h1 = heap (addDiagnostic w (owner arrow) d0)"
    and "fn = (if functionName arrow = None \<or> functionName arrow = Some []
                  \<or> functionName arrow = Some ''#fn'' then None else functionName arrow)"
    and "d2 = \<lparr>message = ''Function '' @ [CHR 0x27] @ (case fn of None \<Rightarrow> [] | Some g \<Rightarrow> g)
                           @ [CHR 0x27] @ '' may be undefined'',
               range = arrow_range arrow, type = Error\<rparr>"
  shows "((\<forall>f. sourceObject (source_eval arrow) \<noteq> StringValue f)
          \<and> (\<forall>c. sourceObject (source_eval arrow) \<noteq> ObjectReferenceInfo c) \<longrightarrow>
          eval n env w stack arrow scope
            = Some (Undefined,
                    \<lparr>heap = h1, events = events w @ [DiagnosticAdded (owner arrow) d0]\<rparr>,
                    stack, arrow\<lparr>arrowType := CallOther\<rparr>))
       \<and> (\<forall>c. sourceObject (source_eval arrow) = ObjectReferenceInfo c \<longrightarrow>
          (getFunction env (symbolTable (h1 ! c)) fn = None \<longrightarrow>
             eval n env w stack arrow scope
               = Some (Undefined,
                       \<lparr>heap = heap (addDiagnostic \<lparr>heap = h1, events = []\<rparr> (owner arrow) d2),
                        events = events w @ [DiagnosticAdded (owner arrow) d0,
                                             FunctionLookup c fn,
                                             DiagnosticAdded (owner arrow) d2]\<rparr>,
                       stack,
                       arrow\<lparr>arrowType := CallOther, objectRef := Some c,
                             objContext := Some c, functionName := fn\<rparr>))
          \<and> (\<forall>funSym. getFunction env (symbolTable (h1 ! c)) fn = Some funSym \<longrightarrow>
             eval n env w stack arrow scope
               = Some (fst (evalFunction env funSym
                             (StackFrame (FunctionFrame funSym) [] []
                                (Some (StackFrame (TableFrame c) [] [] None)) # stack)
                             (methodInvocation arrow) h1),
                       \<lparr>heap = snd (evalFunction env funSym
                             (StackFrame (FunctionFrame funSym) [] []
                                (Some (StackFrame (TableFrame c) [] [] None)) # stack)
                             (methodInvocation arrow) h1),
                        events = events w @ [DiagnosticAdded (owner arrow) d0,
                                             FunctionLookup c fn, FramePush, FramePop]\<rparr>,
                       stack,
                       arrow\<lparr>arrowType := CallOther, objectRef := Some c,
                             objContext := Some c, functionName := fn\<rparr>)))
       \<and> (\<forall>f h. sourceObject (source_eval arrow) = StringValue f
            \<and> loadLpc env (normalizeFilename env (filenameToAbsolutePath env f)) h1 = (None, h)
          \<longrightarrow>
          eval n env w stack arrow scope
            = Some (Undefined,
                    \<lparr>heap = heap (addDiagnostic
                              (addDiagnostic \<lparr>heap = h, events = []\<rparr> (owner arrow)
                                 \<lparr>message = ''could not load source for: '' @ f,
                                  range = arrow_range arrow, type = Warning\<rparr>)
                              (owner arrow) d2),
                     events = events w @ [DiagnosticAdded (owner arrow) d0, ObjectLoad f,
                                          DiagnosticAdded (owner arrow)
                                            \<lparr>message = ''could not load source for: '' @ f,
                                             range = arrow_range arrow, type = Warning\<rparr>,
                                          DiagnosticAdded (owner arrow) d2]\<rparr>,
                    stack,
                    arrow\<lparr>arrowType := CallOther, objContext := None, functionName := fn\<rparr>))
       \<and> (\<forall>f c h. sourceObject (source_eval arrow) = StringValue f
            \<and> loadLpc env (normalizeFilename env (filenameToAbsolutePath env f)) h1 = (Some c, h)
          \<longrightarrow>
          (addAsReferenceTo n h (owner arrow) c True = None \<longrightarrow>
             eval n env w stack arrow scope = None)
          \<and> (\<forall>h'. addAsReferenceTo n h (owner arrow) c True = Some h'
                 \<and> getFunction env (symbolTable (h' ! c)) fn = None \<longrightarrow>
             eval n env w stack arrow scope
               = Some (Undefined,
                       \<lparr>heap = heap (addDiagnostic \<lparr>heap = h', events = []\<rparr> (owner arrow) d2),
                        events = events w @ [DiagnosticAdded (owner arrow) d0, ObjectLoad f,
                                             FunctionLookup c fn,
                                             DiagnosticAdded (owner arrow) d2]\<rparr>,
                       stack,
                       arrow\<lparr>arrowType := CallOther, objContext := Some c,
                             functionName := fn\<rparr>))
          \<and> (\<forall>h' funSym. addAsReferenceTo n h (owner arrow) c True = Some h'
                 \<and> getFunction env (symbolTable (h' ! c)) fn = Some funSym \<longrightarrow>
             eval n env w stack arrow scope
               = Some (fst (evalFunction env funSym
                             (StackFrame (FunctionFrame funSym) [] []
                                (Some (StackFrame (TableFrame c) [] [] None)) # stack)
                             (methodInvocation arrow) h'),
                       \<lparr>heap = snd (evalFunction env funSym
                             (StackFrame (FunctionFrame funSym) [] []
                                (Some (StackFrame (TableFrame c) [] [] None)) # stack)
                             (methodInvocation arrow) h'),
                        events = events w @ [DiagnosticAdded (owner arrow) d0, ObjectLoad f,
                                             FunctionLookup c fn, FramePush, FramePop]\<rparr>,
                       stack,
                       arrow\<lparr>arrowType := CallOther, objContext := Some c,
                             functionName := fn\<rparr>)))"
  by (intro conjI eval_absent_neither[OF assms] eval_absent_reference[OF assms]
        eval_absent_load_fails[OF assms] eval_absent_loaded[OF assms])

lemma ex_arrow_facts:
  "\<not> isStruct (source_eval ex_arrow)" "target ex_arrow = None"
  "sourceObject (source_eval ex_arrow) = StringValue ''obj.c''"
  "functionName ex_arrow = None" "owner ex_arrow = 0" "arrow_range ex_arrow = (1, 2)"
  by (simp_all add: isStruct_def sourceObject_def ex_arrow_def)

theorem eval_missing_method_name_witness:
  "\<not> isStruct (source_eval ex_arrow) \<and> target ex_arrow = None
   \<and> sourceObject (source_eval ex_arrow) = StringValue ''obj.c''
   \<and> loadLpc ex_env_load (normalizeFilename ex_env_load (filenameToAbsolutePath ex_env_load ''obj.c''))
        (heap (addDiagnostic ex_world 0
                 \<lparr>message = ''Missing method name'', range = (1, 2), type = Error\<rparr>))
       = (Some 1, heap (addDiagnostic ex_world 0
                 \<lparr>message = ''Missing method name'', range = (1, 2), type = Error\<rparr>))
   \<and> addAsReferenceTo 1 (heap (addDiagnostic ex_world 0
                 \<lparr>message = ''Missing method name'', range = (1, 2), type = Error\<rparr>)) 0 1 True
       = Some (heap (addDiagnostic ex_world 0
                 \<lparr>message = ''Missing method name'', range = (1, 2), type = Error\<rparr>))
   \<and> getFunction ex_env_load
        (symbolTable (heap (addDiagnostic ex_world 0
                 \<lparr>message = ''Missing method name'', range = (1, 2), type = Error\<rparr>) ! 1)) None
       = None
   \<and> eval 1 ex_env_load ex_world [] ex_arrow Undefined
       = Some (Undefined,
               \<lparr>heap = heap (addDiagnostic
                         \<lparr>heap = heap (addDiagnostic ex_world 0
                                   \<lparr>message = ''Missing method name'', range = (1, 2),
                                    type = Error\<rparr>),
                          events = []\<rparr> 0
                         \<lparr>message = ''Function '' @ [CHR 0x27] @ [] @ [CHR 0x27]
                                      @ '' may be undefined'',
                          range = (1, 2), type = Error\<rparr>),
                events = events ex_world
                  @ [DiagnosticAdded 0
                       \<lparr>message = ''Missing method name'', range = (1, 2), type = Error\<rparr>,
                     ObjectLoad ''obj.c'', FunctionLookup 1 None,
                     DiagnosticAdded 0
                       \<lparr>message = ''Function '' @ [CHR 0x27] @ [] @ [CHR 0x27]
                                    @ '' may be undefined'',
                        range = (1, 2), type = Error\<rparr>]\<rparr>,
               [], ex_arrow\<lparr>arrowType := CallOther, objContext := Some 1, functionName := None\<rparr>)
   \<and> loadLpc ex_env (normalizeFilename ex_env (filenameToAbsolutePath ex_env ''obj.c''))
        (heap (addDiagnostic ex_world 0
                 \<lparr>message = ''Missing method name'', range = (1, 2), type = Error\<rparr>))
       = (None, heap (addDiagnostic ex_world 0
                 \<lparr>message = ''Missing method name'', range = (1, 2), type = Error\<rparr>))
   \<and> events (fst (snd (the (eval 0 ex_env ex_world [] ex_arrow Undefined))))
       = events ex_world
           @ [DiagnosticAdded 0
                \<lparr>message = ''Missing method name'', range = (1, 2), type = Error\<rparr>,
              ObjectLoad ''obj.c'',
              DiagnosticAdded 0
                \<lparr>message = ''could not load source for: '' @ ''obj.c'', range = (1, 2),
                 type = Warning\<rparr>,
              DiagnosticAdded 0
                \<lparr>message = ''Function '' @ [CHR 0x27] @ [] @ [CHR 0x27]
                             @ '' may be undefined'',
                 range = (1, 2), type = Error\<rparr>]"
proof -
  let ?d0 = "\<lparr>message = ''Missing method name'', range = (1, 2), type = Error\<rparr>"
  let ?h1 = "heap (addDiagnostic ex_world 0 ?d0)"
  let ?d2 = "\<lparr>message = ''Function '' @ [CHR 0x27] @ [] @ [CHR 0x27] @ '' may be undefined'',
              range = (1, 2), type = Error\<rparr>"
  note a = ex_arrow_facts
  have d0: "?d0 = \<lparr>message = ''Missing method name'', range = arrow_range ex_arrow, type = Error\<rparr>"
    using a by simp
  have h1: "?h1 = heap (addDiagnostic ex_world (owner ex_arrow) ?d0)" using a by simp
  have fn: "None = (if functionName ex_arrow = None \<or> functionName ex_arrow = Some []
                  \<or> functionName ex_arrow = Some ''#fn'' then None else functionName ex_arrow)"
    using a by simp
  have d2: "?d2 = \<lparr>message = ''Function '' @ [CHR 0x27]
                      @ (case None :: string option of None \<Rightarrow> [] | Some g \<Rightarrow> g)
                      @ [CHR 0x27] @ '' may be undefined'',
               range = arrow_range ex_arrow, type = Error\<rparr>"
    using a by simp
  have ld: "loadLpc ex_env_load
              (normalizeFilename ex_env_load (filenameToAbsolutePath ex_env_load ''obj.c'')) ?h1
            = (Some 1, ?h1)"
    by (simp add: ex_env_load_def ex_env_def)
  have ad: "addAsReferenceTo 1 ?h1 0 1 True = Some ?h1"
    by (simp add: addAsReferenceTo_def addDiagnostic_def ex_world_def ex_chain_def ex_unit_def)
  have gf: "getFunction ex_env_load (symbolTable (?h1 ! 1)) None = None"
    by (simp add: ex_env_load_def ex_env_def addDiagnostic_def ex_world_def ex_chain_def
        ex_unit_def ex_foo_def ex_symbol_def)
  have lf: "loadLpc ex_env (normalizeFilename ex_env (filenameToAbsolutePath ex_env ''obj.c'')) ?h1
            = (None, ?h1)"
    by (simp add: ex_env_def)
  note t1 = eval_missing_method_name [OF a(1,2) d0 h1 fn d2, of 1 ex_env_load "[]" Undefined]
  note t2 = eval_missing_method_name [OF a(1,2) d0 h1 fn d2, of 0 ex_env "[]" Undefined]
  have e1: "eval 1 ex_env_load ex_world [] ex_arrow Undefined
       = Some (Undefined,
               \<lparr>heap = heap (addDiagnostic \<lparr>heap = ?h1, events = []\<rparr> 0 ?d2),
                events = events ex_world
                  @ [DiagnosticAdded 0 ?d0, ObjectLoad ''obj.c'', FunctionLookup 1 None,
                     DiagnosticAdded 0 ?d2]\<rparr>,
               [], ex_arrow\<lparr>arrowType := CallOther, objContext := Some 1, functionName := None\<rparr>)"
    using t1 a(3,5) ld ad gf by auto
  have e2: "eval 0 ex_env ex_world [] ex_arrow Undefined
       = Some (Undefined,
               \<lparr>heap = heap (addDiagnostic
                         (addDiagnostic \<lparr>heap = ?h1, events = []\<rparr> 0
                            \<lparr>message = ''could not load source for: '' @ ''obj.c'',
                             range = (1, 2), type = Warning\<rparr>) 0 ?d2),
                events = events ex_world
                  @ [DiagnosticAdded 0 ?d0, ObjectLoad ''obj.c'',
                     DiagnosticAdded 0
                       \<lparr>message = ''could not load source for: '' @ ''obj.c'', range = (1, 2),
                        type = Warning\<rparr>,
                     DiagnosticAdded 0 ?d2]\<rparr>,
               [], ex_arrow\<lparr>arrowType := CallOther, objContext := None, functionName := None\<rparr>)"
    using t2 a(3,5,6) lf by auto
  have e3: "events (fst (snd (the (eval 0 ex_env ex_world [] ex_arrow Undefined))))
       = events ex_world
           @ [DiagnosticAdded 0 ?d0, ObjectLoad ''obj.c'',
              DiagnosticAdded 0
                \<lparr>message = ''could not load source for: '' @ ''obj.c'', range = (1, 2),
                 type = Warning\<rparr>,
              DiagnosticAdded 0 ?d2]"
    by (simp only: e2 option.sel fst_conv snd_conv world.select_convs)
  show ?thesis using a(1,2,3) ld ad gf e1 lf e3 by (intro conjI)
qed

text \<open>
  The claim as stated fails for \<^verbatim>\<open>"obj.c"->\<close>: the object is loaded, the function is looked
  up in its table, and a second error diagnostic follows the first.
\<close>

theorem eval_missing_method_name_counterexample:
  "\<not> isStruct (source_eval ex_arrow) \<and> target ex_arrow = None
   \<and> eval 1 ex_env_load ex_world [] ex_arrow Undefined \<noteq> None
   \<and> events (fst (snd (the (eval 1 ex_env_load ex_world [] ex_arrow Undefined))))
       = [DiagnosticAdded 0 \<lparr>message = ''Missing method name'', range = (1, 2), type = Error\<rparr>,
          ObjectLoad ''obj.c'',
          FunctionLookup 1 None,
          DiagnosticAdded 0 \<lparr>message = mayBeUndefined None, range = (1, 2), type = Error\<rparr>]"
  by (simp add: eval_def evalCallOther_def isStruct_def sourceObject_def ex_arrow_def
      ex_env_load_def ex_env_def ex_world_def ex_chain_def ex_unit_def loadObject_def
      addAsReferenceTo_def callFunction_def addDiagnostic_def logEvent_def ex_foo_def
      ex_symbol_def Let_def)

text \<open>
  Claim C6. When the source value of a remote call is a string and the file it names
  cannot be loaded, the evaluation returns \<^verbatim>\<open>undefined\<close>, after it has added to the owner a
  diagnostic of severity warning whose message is "could not load source for: " followed
  by the string; no frame is pushed.
\<close>

theorem eval_could_not_load:
  "\<not> isStruct (source_eval arrow) \<and> sourceObject (source_eval arrow) = StringValue f
   \<and> (\<forall>h. fst (loadLpc env (normalizeFilename env (filenameToAbsolutePath env f)) h) = None)
   \<longrightarrow>
   (\<exists>w' arrow'. eval n env w stack arrow scope = Some (Undefined, w', stack, arrow')
      \<and> objContext arrow' = None
      \<and> DiagnosticAdded (owner arrow)
           \<lparr>message = ''could not load source for: '' @ f, range = arrow_range arrow,
            type = Warning\<rparr> \<in> set (newEvents w w')
      \<and> FramePush \<notin> set (newEvents w w')
      \<and> (owner arrow < length (heap w') \<longrightarrow>
           \<lparr>message = ''could not load source for: '' @ f, range = arrow_range arrow,
            type = Warning\<rparr> \<in> set (diagnostics (heap w' ! owner arrow))))"
  using eval_load_fails[of arrow f env n w stack scope] by blast

theorem eval_could_not_load_witness:
  "\<not> isStruct (source_eval ex_call_arrow)
   \<and> sourceObject (source_eval ex_call_arrow) = StringValue ''missing.c''
   \<and> (\<forall>h. fst (loadLpc ex_env (normalizeFilename ex_env
                 (filenameToAbsolutePath ex_env ''missing.c'')) h) = None)
   \<and> (\<exists>w' arrow'. eval 0 ex_env ex_world [] ex_call_arrow Undefined
                     = Some (Undefined, w', [], arrow')
        \<and> objContext arrow' = None
        \<and> DiagnosticAdded (owner ex_call_arrow)
             \<lparr>message = ''could not load source for: '' @ ''missing.c'',
              range = arrow_range ex_call_arrow, type = Warning\<rparr> \<in> set (newEvents ex_world w')
        \<and> FramePush \<notin> set (newEvents ex_world w')
        \<and> (owner ex_call_arrow < length (heap w') \<longrightarrow>
             \<lparr>message = ''could not load source for: '' @ ''missing.c'',
              range = arrow_range ex_call_arrow, type = Warning\<rparr>
               \<in> set (diagnostics (heap w' ! owner ex_call_arrow))))"
proof -
  have s: "\<not> isStruct (source_eval ex_call_arrow)"
    "sourceObject (source_eval ex_call_arrow) = StringValue ''missing.c''"
    by (simp_all add: isStruct_def sourceObject_def ex_call_arrow_def ex_arrow_def)
  have l: "\<forall>h. fst (loadLpc ex_env (normalizeFilename ex_env
                 (filenameToAbsolutePath ex_env ''missing.c'')) h) = None"
    by (simp add: ex_env_def)
  from eval_could_not_load [of ex_call_arrow "''missing.c''" ex_env 0 ex_world "[]" Undefined] s l
  show ?thesis by blast
qed

section \<open>Properties of the file name search\<close>

lemma searchLoop_find:
  "fullPath (searchLoop fs normed ty f ps)
     = map_option (\<lambda>p. path_join fs p normed) (find (\<lambda>p. existsSync fs (path_join fs p normed)) ps)"
  by (induction ps) simp_all

lemma searchLoop_type:
  "res_type (searchLoop fs normed ty f ps)
     = (if \<exists>p \<in> set ps. existsSync fs (path_join fs p normed) then Some ty else None)"
  by (induction ps) simp_all

lemma searchType_quoted:
  "testFilename fs f [CHR 0x22] [CHR 0x22] \<noteq> f \<Longrightarrow>
   searchType fs f = (testFilename fs f [CHR 0x22] [CHR 0x22], Local)"
  by (simp add: searchType_def Let_def)

lemma searchType_angle:
  "testFilename fs f [CHR 0x22] [CHR 0x22] = f \<Longrightarrow> testFilename fs f ''<'' ''>'' \<noteq> f \<Longrightarrow>
   searchType fs f = (testFilename fs f ''<'' ''>'', Global)"
  by (simp add: searchType_def Let_def)

lemma resolveFilename_with:
  assumes st: "searchType fs f = (stripped, ty)"
    and e: "entry = getContextEntry_filename fs (fileName c)"
    and d: "dir = path_dirname fs (if take 5 entry = ''file:'' then fsPath fs entry else entry)"
    and ds: "dirs = map (\<lambda>d. if path_isAbsolute fs d then d else path_join fs dir d) (importDir c)"
    and n: "normed = normalizeFilename_fs fs stripped"
    and p: "paths = (if ty = Global then rev (dir # dirs) else dir # dirs)
                    @ (if CHR ''/'' \<in> set normed then [workspaceDir fs] else [])"
  shows "searchPaths fs c f = paths
          \<and> fullPath (resolveFilename fs c f)
              = map_option (\<lambda>p. path_join fs p normed)
                  (find (\<lambda>p. existsSync fs (path_join fs p normed)) paths)
          \<and> res_type (resolveFilename fs c f)
              = (if \<exists>p \<in> set paths. existsSync fs (path_join fs p normed)
                 then Some ty else None)"
proof -
  have b: "basePath fs c = dir" using e d by (simp add: basePath_def Let_def)
  have i: "fullImportDirs fs c = dirs" using ds b by (simp add: fullImportDirs_def)
  have sp: "searchPaths fs c f = paths"
    using st n p b i by (simp add: searchPaths_def Let_def)
  have r: "resolveFilename fs c f = searchLoop fs normed ty stripped paths"
    using st n sp by (simp add: resolveFilename_def)
  show ?thesis using sp r by (simp add: searchLoop_find searchLoop_type)
qed

text \<open>
  Claim C5. Let \<open>dir\<close> be the directory of this file (the directory name of the path
  the facade has for it, taken from the URI when it is one) and \<open>dirs\<close> the configured
  import directories in their order, each as it is when absolute and joined to \<open>dir\<close>
  otherwise. For a quoted name the directories searched are \<open>dir\<close> and then \<open>dirs\<close>; for a
  name in angle brackets, the reverse of that list; in both cases the workspace root
  comes last when the normalized name contains a slash. The result's full path is the
  name joined to the first of these directories where the joined path exists, with the
  search type, and both are absent when it exists in none.
\<close>

theorem resolveFilename_search_order:
  assumes "entry = getContextEntry_filename fs (fileName c)"
    and "dir = path_dirname fs (if take 5 entry = ''file:'' then fsPath fs entry else entry)"
    and "dirs = map (\<lambda>d. if path_isAbsolute fs d then d else path_join fs dir d) (importDir c)"
  shows "(testFilename fs f [CHR 0x22] [CHR 0x22] \<noteq> f
          \<and> normed = normalizeFilename_fs fs (testFilename fs f [CHR 0x22] [CHR 0x22])
          \<and> paths = (dir # dirs) @ (if CHR ''/'' \<in> set normed then [workspaceDir fs] else [])
          \<longrightarrow>
          searchPaths fs c f = paths
          \<and> fullPath (resolveFilename fs c f)
              = map_option (\<lambda>p. path_join fs p normed)
                  (find (\<lambda>p. existsSync fs (path_join fs p normed)) paths)
          \<and> res_type (resolveFilename fs c f)
              = (if \<exists>p \<in> set paths. existsSync fs (path_join fs p normed)
                 then Some Local else None))
       \<and> (testFilename fs f [CHR 0x22] [CHR 0x22] = f \<and> testFilename fs f ''<'' ''>'' \<noteq> f
          \<and> normed = normalizeFilename_fs fs (testFilename fs f ''<'' ''>'')
          \<and> paths = rev (dir # dirs) @ (if CHR ''/'' \<in> set normed then [workspaceDir fs] else [])
          \<longrightarrow>
          searchPaths fs c f = paths
          \<and> fullPath (resolveFilename fs c f)
              = map_option (\<lambda>p. path_join fs p normed)
                  (find (\<lambda>p. existsSync fs (path_join fs p normed)) paths)
          \<and> res_type (resolveFilename fs c f)
              = (if \<exists>p \<in> set paths. existsSync fs (path_join fs p normed)
                 then Some Global else None))"
proof (rule conjI)
  show "testFilename fs f [CHR 0x22] [CHR 0x22] \<noteq> f
          \<and> normed = normalizeFilename_fs fs (testFilename fs f [CHR 0x22] [CHR 0x22])
          \<and> paths = (dir # dirs) @ (if CHR ''/'' \<in> set normed then [workspaceDir fs] else [])
          \<longrightarrow>
          searchPaths fs c f = paths
          \<and> fullPath (resolveFilename fs c f)
              = map_option (\<lambda>p. path_join fs p normed)
                  (find (\<lambda>p. existsSync fs (path_join fs p normed)) paths)
          \<and> res_type (resolveFilename fs c f)
              = (if \<exists>p \<in> set paths. existsSync fs (path_join fs p normed)
                 then Some Local else None)"
  proof
    assume a: "testFilename fs f [CHR 0x22] [CHR 0x22] \<noteq> f
          \<and> normed = normalizeFilename_fs fs (testFilename fs f [CHR 0x22] [CHR 0x22])
          \<and> paths = (dir # dirs) @ (if CHR ''/'' \<in> set normed then [workspaceDir fs] else [])"
    then have st: "searchType fs f = (testFilename fs f [CHR 0x22] [CHR 0x22], Local)"
      by (simp add: searchType_quoted)
    have p: "paths = (if Local = Global then rev (dir # dirs) else dir # dirs)
                    @ (if CHR ''/'' \<in> set normed then [workspaceDir fs] else [])"
      using a by simp
    from resolveFilename_with[OF st assms _ p] a
    show "searchPaths fs c f = paths
          \<and> fullPath (resolveFilename fs c f)
              = map_option (\<lambda>p. path_join fs p normed)
                  (find (\<lambda>p. existsSync fs (path_join fs p normed)) paths)
          \<and> res_type (resolveFilename fs c f)
              = (if \<exists>p \<in> set paths. existsSync fs (path_join fs p normed)
                 then Some Local else None)" by blast
  qed
next
  show "testFilename fs f [CHR 0x22] [CHR 0x22] = f \<and> testFilename fs f ''<'' ''>'' \<noteq> f
          \<and> normed = normalizeFilename_fs fs (testFilename fs f ''<'' ''>'')
          \<and> paths = rev (dir # dirs) @ (if CHR ''/'' \<in> set normed then [workspaceDir fs] else [])
          \<longrightarrow>
          searchPaths fs c f = paths
          \<and> fullPath (resolveFilename fs c f)
              = map_option (\<lambda>p. path_join fs p normed)
                  (find (\<lambda>p. existsSync fs (path_join fs p normed)) paths)
          \<and> res_type (resolveFilename fs c f)
              = (if \<exists>p \<in> set paths. existsSync fs (path_join fs p normed)
                 then Some Global else None)"
  proof
    assume a: "testFilename fs f [CHR 0x22] [CHR 0x22] = f \<and> testFilename fs f ''<'' ''>'' \<noteq> f
          \<and> normed = normalizeFilename_fs fs (testFilename fs f ''<'' ''>'')
          \<and> paths = rev (dir # dirs) @ (if CHR ''/'' \<in> set normed then [workspaceDir fs] else [])"
    then have st: "searchType fs f = (testFilename fs f ''<'' ''>'', Global)"
      by (simp add: searchType_angle)
    have p: "paths = (if Global = Global then rev (dir # dirs) else dir # dirs)
                    @ (if CHR ''/'' \<in> set normed then [workspaceDir fs] else [])"
      using a by simp
    from resolveFilename_with[OF st assms _ p] a
    show "searchPaths fs c f = paths
          \<and> fullPath (resolveFilename fs c f)
              = map_option (\<lambda>p. path_join fs p normed)
                  (find (\<lambda>p. existsSync fs (path_join fs p normed)) paths)
          \<and> res_type (resolveFilename fs c f)
              = (if \<exists>p \<in> set paths. existsSync fs (path_join fs p normed)
                 then Some Global else None)" by blast
  qed
qed


lemma ex_fs_dirs:
  "ex_dirname (drop 7 (''file:///mud/obj/'' @ ''a.c'')) = ''/mud/obj''"
  by (simp add: ex_dirname_def)

theorem resolveFilename_search_order_witness:
  "testFilename ex_fs ''<x.h>'' [CHR 0x22] [CHR 0x22] = ''<x.h>''
   \<and> testFilename ex_fs ''<x.h>'' ''<'' ''>'' \<noteq> ''<x.h>''
   \<and> testFilename ex_fs ex_quoted [CHR 0x22] [CHR 0x22] \<noteq> ex_quoted
   \<and> testFilename ex_fs ''<sys/y.h>'' [CHR 0x22] [CHR 0x22] = ''<sys/y.h>''
   \<and> testFilename ex_fs ''<sys/y.h>'' ''<'' ''>'' \<noteq> ''<sys/y.h>''
   \<and> importDir ex_includer = [''/lib/inc'', ''inc'']
   \<and> searchPaths ex_fs ex_includer ex_quoted = [''/mud/obj'', ''/lib/inc'', ''/mud/obj/inc'']
   \<and> fullPath (resolveFilename ex_fs ex_includer ex_quoted) = Some ''/lib/inc/x.h''
   \<and> res_type (resolveFilename ex_fs ex_includer ex_quoted) = Some Local
   \<and> searchPaths ex_fs ex_includer ''<x.h>'' = [''/mud/obj/inc'', ''/lib/inc'', ''/mud/obj'']
   \<and> fullPath (resolveFilename ex_fs ex_includer ''<x.h>'') = Some ''/mud/obj/inc/x.h''
   \<and> res_type (resolveFilename ex_fs ex_includer ''<x.h>'') = Some Global
   \<and> searchPaths ex_fs ex_includer ''<sys/y.h>''
       = [''/mud/obj/inc'', ''/lib/inc'', ''/mud/obj'', ''/mud'']
   \<and> fullPath (resolveFilename ex_fs ex_includer ''<sys/y.h>'') = Some ''/mud/sys/y.h''"
proof -
  have t: "testFilename ex_fs ''<x.h>'' [CHR 0x22] [CHR 0x22] = ''<x.h>''"
    "testFilename ex_fs ''<x.h>'' ''<'' ''>'' \<noteq> ''<x.h>''"
    "testFilename ex_fs ex_quoted [CHR 0x22] [CHR 0x22] \<noteq> ex_quoted"
    "testFilename ex_fs ''<sys/y.h>'' [CHR 0x22] [CHR 0x22] = ''<sys/y.h>''"
    "testFilename ex_fs ''<sys/y.h>'' ''<'' ''>'' \<noteq> ''<sys/y.h>''"
    by (simp_all add: ex_fs_def ex_quoted_def)
  have i: "importDir ex_includer = [''/lib/inc'', ''inc'']" by (simp add: ex_includer_def)
  have e: "''file:///mud/obj/a.c'' = getContextEntry_filename ex_fs (fileName ex_includer)"
    by (simp add: ex_fs_def ex_includer_def ex_unit_def)
  have d: "''/mud/obj'' = path_dirname ex_fs
             (if take 5 ''file:///mud/obj/a.c'' = ''file:''
              then fsPath ex_fs ''file:///mud/obj/a.c'' else ''file:///mud/obj/a.c'')"
    using ex_fs_dirs by (simp add: ex_fs_def)
  have ds: "[''/lib/inc'', ''/mud/obj/inc'']
              = map (\<lambda>d. if path_isAbsolute ex_fs d then d else path_join ex_fs ''/mud/obj'' d)
                  (importDir ex_includer)"
    by (simp add: ex_fs_def ex_includer_def)
  have n: "normalizeFilename_fs ex_fs (testFilename ex_fs ex_quoted [CHR 0x22] [CHR 0x22]) = ''x.h''"
    "normalizeFilename_fs ex_fs (testFilename ex_fs ''<x.h>'' ''<'' ''>'') = ''x.h''"
    "normalizeFilename_fs ex_fs (testFilename ex_fs ''<sys/y.h>'' ''<'' ''>'') = ''sys/y.h''"
    by (simp_all add: ex_fs_def ex_quoted_def)
  have x: "\<And>p. existsSync ex_fs p
             \<longleftrightarrow> p = ''/lib/inc/x.h'' \<or> p = ''/mud/obj/inc/x.h'' \<or> p = ''/mud/sys/y.h''"
    "\<And>p q. path_join ex_fs p q = p @ ''/'' @ q" "workspaceDir ex_fs = ''/mud''"
    by (simp_all add: ex_fs_def)
  note q = resolveFilename_search_order
             [OF e d ds, of ex_quoted "''x.h''" "[''/mud/obj'', ''/lib/inc'', ''/mud/obj/inc'']"]
  note g = resolveFilename_search_order
             [OF e d ds, of "''<x.h>''" "''x.h''" "[''/mud/obj/inc'', ''/lib/inc'', ''/mud/obj'']"]
  note y = resolveFilename_search_order
             [OF e d ds, of "''<sys/y.h>''" "''sys/y.h''"
                 "[''/mud/obj/inc'', ''/lib/inc'', ''/mud/obj'', ''/mud'']"]
  have a: "searchPaths ex_fs ex_includer ex_quoted = [''/mud/obj'', ''/lib/inc'', ''/mud/obj/inc'']
     \<and> fullPath (resolveFilename ex_fs ex_includer ex_quoted) = Some ''/lib/inc/x.h''
     \<and> res_type (resolveFilename ex_fs ex_includer ex_quoted) = Some Local"
    using q t(3) n(1) x by auto
  have b: "searchPaths ex_fs ex_includer ''<x.h>'' = [''/mud/obj/inc'', ''/lib/inc'', ''/mud/obj'']
     \<and> fullPath (resolveFilename ex_fs ex_includer ''<x.h>'') = Some ''/mud/obj/inc/x.h''
     \<and> res_type (resolveFilename ex_fs ex_includer ''<x.h>'') = Some Global"
    using g t(1,2) n(2) x by auto
  have c: "searchPaths ex_fs ex_includer ''<sys/y.h>''
       = [''/mud/obj/inc'', ''/lib/inc'', ''/mud/obj'', ''/mud'']
     \<and> fullPath (resolveFilename ex_fs ex_includer ''<sys/y.h>'') = Some ''/mud/sys/y.h''"
    using y t(4,5) n(3) x by auto
  show ?thesis using t i a b c by (intro conjI) simp_all
qed

section \<open>Properties of the completion merge\<close>

lemma mergeSymbol_inv: "merge_inv pre st \<Longrightarrow> merge_inv pre (mergeSymbol symbol st)"
  by (cases st) (auto simp: merge_inv_def mergeSymbol_def)

lemma fold_mergeSymbol_inv: "merge_inv pre st \<Longrightarrow> merge_inv pre (fold mergeSymbol ss st)"
  by (induction ss arbitrary: st) (simp_all add: mergeSymbol_inv)

lemma mergeList_inv: "merge_inv pre st \<Longrightarrow> merge_inv pre (mergeList syms st)"
  by (cases syms) (simp_all add: mergeList_def fold_mergeSymbol_inv)

lemma fold_mergeList_inv: "merge_inv pre st \<Longrightarrow> merge_inv pre (fold mergeList ls st)"
  by (induction ls arbitrary: st) (simp_all add: mergeList_inv)

lemma mergeSymbolLists_shape:
  "\<exists>d. mergeSymbolLists ls pre = pre @ d \<and> distinct (map name d) \<and> ''EOF'' \<notin> set (map name d)"
proof -
  have "merge_inv pre ([], pre)" by (simp add: merge_inv_def)
  then have "merge_inv pre (fold mergeList ls ([], pre))" by (rule fold_mergeList_inv)
  then obtain names d where f: "fold mergeList ls ([], pre) = (names, pre @ d)"
    and m: "map name d = rev names" and dn: "distinct names" and e: "''EOF'' \<notin> set names"
    by (cases "fold mergeList ls ([], pre)") (auto simp: merge_inv_def)
  have "distinct (map name d)" using m dn by simp
  moreover have "''EOF'' \<notin> set (map name d)" using m e by simp
  ultimately show ?thesis using f by (simp add: mergeSymbolLists_def)
qed

lemma tokenCandidate_noEOF: "''EOF'' \<notin> name ` set (tokenCandidate f t)"
  by (cases t) simp_all

lemma tokenCandidates_noEOF: "''EOF'' \<notin> name ` set (tokenCandidates f ts)"
  using tokenCandidate_noEOF by (fastforce simp: tokenCandidates_def)

lemma ruleCandidate_noEOF:
  "''EOF'' \<notin> name ` set (fst st) \<Longrightarrow> ''EOF'' \<notin> name ` set (fst (ruleCandidate f s lk r st))"
  by (cases st; cases r; cases s) (auto simp: expressionRule_def)

lemma fold_ruleCandidate_noEOF:
  "''EOF'' \<notin> name ` set (fst st) \<Longrightarrow>
   ''EOF'' \<notin> name ` set (fst (fold (ruleCandidate f s lk) rs st))"
proof (induction rs arbitrary: st)
  case Nil
  then show ?case by simp
next
  case (Cons r rs)
  have "''EOF'' \<notin> name ` set (fst (ruleCandidate f s lk r st))"
    using Cons.prems by (rule ruleCandidate_noEOF)
  then show ?case using Cons.IH by simp
qed

lemma fixedCandidates_noEOF: "''EOF'' \<notin> name ` set (fixedCandidates f s lk ts rs)"
  unfolding fixedCandidates_def ruleCandidates_def
  by (rule fold_ruleCandidate_noEOF) (simp add: tokenCandidates_noEOF)

text \<open>
  Claim C10. The list returned by \<^verbatim>\<open>getCodeCompletionCandidates\<close> starts with the fixed
  candidates of the token and rule phases; the entries after them are the symbol-derived
  ones. No name is derived twice, whatever the lookups return, and no candidate of the
  whole list is named \<^verbatim>\<open>EOF\<close>.
\<close>

theorem completion_candidates_no_EOF_distinct:
  "take (length (fixedCandidates f s lk ts rs)) (getCodeCompletionCandidates f s lk ts rs)
     = fixedCandidates f s lk ts rs
   \<and> distinct (map name (drop (length (fixedCandidates f s lk ts rs))
                              (getCodeCompletionCandidates f s lk ts rs)))
   \<and> ''EOF'' \<notin> set (map name (getCodeCompletionCandidates f s lk ts rs))"
proof -
  obtain result promises where rc:
    "ruleCandidates f s lk rs (tokenCandidates f ts) = (result, promises)"
    by (cases "ruleCandidates f s lk rs (tokenCandidates f ts)")
  have fx: "fixedCandidates f s lk ts rs = result" by (simp add: fixedCandidates_def rc)
  obtain d where d: "mergeSymbolLists promises result = result @ d"
    "distinct (map name d)" "''EOF'' \<notin> set (map name d)"
    using mergeSymbolLists_shape by blast
  have g: "getCodeCompletionCandidates f s lk ts rs = result @ d"
    by (simp add: getCodeCompletionCandidates_def rc d(1))
  have "''EOF'' \<notin> name ` set result" using fixedCandidates_noEOF[of f s lk ts rs] fx by simp
  then show ?thesis using g fx d by auto
qed

theorem completion_candidates_witness:
  "getCodeCompletionCandidates ''a.c'' NotArrow ex_lookups [ARROW, Identifier]
      [RULE_statement, RULE_assignmentExpression]
     = [\<lparr>kind = Operator, name = ''->'', description = Some ''Call other'', source = Some ''a.c''\<rparr>,
        \<lparr>kind = Operator, name = ''->'', description = Some ''Call other'', source = Some ''a.c''\<rparr>,
        \<lparr>kind = Efun, name = ''write'', description = None, source = Some ''a.c''\<rparr>,
        \<lparr>kind = Variable, name = ''x'', description = None, source = Some ''a.c''\<rparr>]
   \<and> distinct (map name (drop (length (fixedCandidates ''a.c'' NotArrow ex_lookups
        [ARROW, Identifier] [RULE_statement, RULE_assignmentExpression]))
        (getCodeCompletionCandidates ''a.c'' NotArrow ex_lookups [ARROW, Identifier]
          [RULE_statement, RULE_assignmentExpression])))
   \<and> ''EOF'' \<notin> set (map name (getCodeCompletionCandidates ''a.c'' NotArrow ex_lookups
        [ARROW, Identifier] [RULE_statement, RULE_assignmentExpression]))"
proof -
  have v: "getCodeCompletionCandidates ''a.c'' NotArrow ex_lookups [ARROW, Identifier]
      [RULE_statement, RULE_assignmentExpression]
     = [\<lparr>kind = Operator, name = ''->'', description = Some ''Call other'', source = Some ''a.c''\<rparr>,
        \<lparr>kind = Operator, name = ''->'', description = Some ''Call other'', source = Some ''a.c''\<rparr>,
        \<lparr>kind = Efun, name = ''write'', description = None, source = Some ''a.c''\<rparr>,
        \<lparr>kind = Variable, name = ''x'', description = None, source = Some ''a.c''\<rparr>]"
    by (simp add: getCodeCompletionCandidates_def ruleCandidates_def tokenCandidates_def
        expressionRule_def mergeSymbolLists_def mergeList_def mergeSymbol_def ex_lookups_def
        ex_symbol_def getKindFromSymbol_def)
  from completion_candidates_no_EOF_distinct [of "''a.c''" NotArrow ex_lookups
      "[ARROW, Identifier]" "[RULE_statement, RULE_assignmentExpression]"]
  show ?thesis using v by blast
qed

end
